theory Spec2Isabelle
  imports Main "HOL-Library.AList"
begin

section \<open>Data model of the service worker\<close>

text \<open>
  The program is \<^verbatim>\<open>src/frontend/service-worker.js\<close> (version 2.5.0). Its state lives in
  the platform's cache storage, so the model threads a state record through every
  handler. A promise is modelled by the value it settles to and the state after all the
  work it started has settled. Network calls can fail; faults of the cache storage
  itself (the \<^verbatim>\<open>catch\<close> branches of the three storage helpers) are not modelled.
\<close>

text \<open>
  JSON documents, as \<^verbatim>\<open>JSON.parse\<close> produces them. The code observes of a number only
  whether it is zero, so numbers are integers here.
\<close>

datatype json =
    JNull
  | JBool bool
  | JNum int
  | JStr string
  | JArr "json list"
  | JObj "(string \<times> json) list"

text \<open>A \<^verbatim>\<open>Response\<close>: its status, its Content-Type header and its body text.\<close>

record response =
  status :: nat
  content_type :: string
  body :: string

text \<open>
  A \<^verbatim>\<open>Request\<close> as the fetch listener reads it. The fields \<open>protocol\<close>, \<open>origin\<close>,
  \<open>hostname\<close> and \<open>pathname\<close> are those of \<^verbatim>\<open>new URL(request.url)\<close>; the URL parser
  belongs to the platform, so its results are given with the request.
\<close>

record request =
  url :: string
  http_method :: string
  destination :: string
  protocol :: string
  origin :: string
  hostname :: string
  pathname :: string

text \<open>An outbound network call: what \<^verbatim>\<open>fetch\<close> is given.\<close>

record netreq =
  nurl :: string
  nmethod :: string
  nbody :: string
  ncors_omit :: bool

text \<open>A message posted to a client.\<close>

record message =
  mtype :: string
  mversion :: "string option"
  mtext :: string

text \<open>
  A cache is an association list from request identity to the stored response. The
  identity of a request is what the Cache API compares when it stores and matches: the
  URL the code gives, resolved against the worker's location and taken without its
  fragment (every entry is a GET). The platform computes it, so it is a parameter of
  the model: \<open>ident\<close> in the environment below. The cache storage is an
  association list of named caches in creation order, which is the order
  \<^verbatim>\<open>caches.keys()\<close> and \<^verbatim>\<open>caches.match\<close> follow.
\<close>

type_synonym cache = "(string \<times> response) list"
type_synonym cache_storage = "(string \<times> cache) list"

text \<open>
  The environment of a run: \<open>net n r\<close> is how the \<open>n\<close>-th network call of the run
  settles when it is the call \<open>r\<close> (\<open>None\<close>: the promise rejects, a network error);
  \<open>stringify\<close> and \<open>parse\<close> are the platform's \<^verbatim>\<open>JSON.stringify\<close> and
  \<^verbatim>\<open>JSON.parse\<close> (\<open>None\<close>: it throws); \<open>location_origin\<close> is
  \<^verbatim>\<open>location.origin\<close>; \<open>ident u\<close> is the request identity the cache storage gives
  the URL \<open>u\<close>.
\<close>

record env =
  net :: "nat \<Rightarrow> netreq \<Rightarrow> response option"
  stringify :: "json \<Rightarrow> string"
  parse :: "string \<Rightarrow> json option"
  location_origin :: string
  ident :: "string \<Rightarrow> string"

record sw_state =
  caches :: cache_storage
  netlog :: "netreq list"
  clients :: "string list"
  posted :: "(string \<times> message) list"
  skip_waiting :: bool

section \<open>The platform's cache storage\<close>

definition caches_open :: "string \<Rightarrow> cache_storage \<Rightarrow> cache_storage" where
  "caches_open name cs = (case map_of cs name of None \<Rightarrow> cs @ [(name, [])] | Some c \<Rightarrow> cs)"

definition named_cache :: "cache_storage \<Rightarrow> string \<Rightarrow> cache" where
  "named_cache cs name = (case map_of cs name of None \<Rightarrow> [] | Some c \<Rightarrow> c)"

definition cache_put :: "string \<Rightarrow> string \<Rightarrow> response \<Rightarrow> cache_storage \<Rightarrow> cache_storage" where
  "cache_put name k r cs =
     (let cs1 = caches_open name cs
      in AList.update name (AList.update k r (named_cache cs1 name)) cs1)"

definition cache_delete :: "string \<Rightarrow> string \<Rightarrow> cache_storage \<Rightarrow> cache_storage" where
  "cache_delete name k cs =
     (let cs1 = caches_open name cs
      in AList.update name (AList.delete k (named_cache cs1 name)) cs1)"

definition cache_match :: "string \<Rightarrow> string \<Rightarrow> cache_storage \<Rightarrow> response option" where
  "cache_match name k cs = map_of (named_cache cs name) k"

fun caches_match :: "cache_storage \<Rightarrow> string \<Rightarrow> response option" where
  "caches_match [] k = None"
| "caches_match ((n, c) # cs) k =
     (case map_of c k of Some r \<Rightarrow> Some r | None \<Rightarrow> caches_match cs k)"

definition caches_keys :: "cache_storage \<Rightarrow> string list" where
  "caches_keys cs = map fst cs"

definition caches_delete :: "string \<Rightarrow> cache_storage \<Rightarrow> cache_storage" where
  "caches_delete name cs = AList.delete name cs"

definition fetch :: "env \<Rightarrow> netreq \<Rightarrow> sw_state \<Rightarrow> response option \<times> sw_state" where
  "fetch e r s = (net e (length (netlog s)) r, s\<lparr>netlog := netlog s @ [r]\<rparr>)"

section \<open>The durable key-value store\<close>

definition DATA_CACHE :: string where
  "DATA_CACHE = ''lumina-ai-data''"

definition data_url :: "string \<Rightarrow> string" where
  "data_url key = ''/data/'' @ key"

text \<open>
  \<^verbatim>\<open>getStoredData\<close> returns \<^verbatim>\<open>null\<close> when no entry matches and when reading the
  entry throws (its \<^verbatim>\<open>catch\<close>); \<^verbatim>\<open>caches.open\<close> creates the namespace on the way.
\<close>

definition getStoredData :: "env \<Rightarrow> string \<Rightarrow> sw_state \<Rightarrow> json \<times> sw_state" where
  "getStoredData e key s =
     (let s1 = s\<lparr>caches := caches_open DATA_CACHE (caches s)\<rparr>
      in case cache_match DATA_CACHE (ident e (data_url key)) (caches s1) of
           None \<Rightarrow> (JNull, s1)
         | Some r \<Rightarrow> (case parse e (body r) of None \<Rightarrow> (JNull, s1) | Some v \<Rightarrow> (v, s1)))"

definition data_response :: "env \<Rightarrow> json \<Rightarrow> response" where
  "data_response e v = \<lparr>status = 200, content_type = ''application/json'', body = stringify e v\<rparr>"

definition storeData :: "env \<Rightarrow> string \<Rightarrow> json \<Rightarrow> sw_state \<Rightarrow> sw_state" where
  "storeData e key v s =
     s\<lparr>caches := cache_put DATA_CACHE (ident e (data_url key)) (data_response e v) (caches s)\<rparr>"

definition clearStoredData :: "env \<Rightarrow> string \<Rightarrow> sw_state \<Rightarrow> sw_state" where
  "clearStoredData e key s =
     s\<lparr>caches := cache_delete DATA_CACHE (ident e (data_url key)) (caches s)\<rparr>"

text \<open>
  A history of writes to the store, and what it leaves for a key: the value of the last
  store under a key of the same request identity, unless a clear of such a key came
  after it.
\<close>

datatype data_op = Store string json | Clear string

fun run_data_op :: "env \<Rightarrow> data_op \<Rightarrow> sw_state \<Rightarrow> sw_state" where
  "run_data_op e (Store k v) s = storeData e k v s"
| "run_data_op e (Clear k) s = clearStoredData e k s"

fun run_data_ops :: "env \<Rightarrow> data_op list \<Rightarrow> sw_state \<Rightarrow> sw_state" where
  "run_data_ops e [] s = s"
| "run_data_ops e (x # xs) s = run_data_ops e xs (run_data_op e x s)"

definition same_identity :: "env \<Rightarrow> string \<Rightarrow> string \<Rightarrow> bool" where
  "same_identity e k' k = (ident e (data_url k') = ident e (data_url k))"

fun last_written :: "env \<Rightarrow> data_op list \<Rightarrow> string \<Rightarrow> json option \<Rightarrow> json option" where
  "last_written e [] k acc = acc"
| "last_written e (Store k' v # xs) k acc =
     last_written e xs k (if same_identity e k' k then Some v else acc)"
| "last_written e (Clear k' # xs) k acc =
     last_written e xs k (if same_identity e k' k then None else acc)"

definition json_serializable :: "env \<Rightarrow> json \<Rightarrow> bool" where
  "json_serializable e v = (parse e (stringify e v) = Some v)"

section \<open>Constants of the worker\<close>

definition APP_VERSION :: string where
  "APP_VERSION = ''2.5.0''"

definition CACHE_NAME :: string where
  "CACHE_NAME = ''lumina-ai-trainer-v'' @ APP_VERSION"

definition STATIC_CACHE :: string where
  "STATIC_CACHE = ''lumina-static-v'' @ APP_VERSION"

definition DYNAMIC_CACHE :: string where
  "DYNAMIC_CACHE = ''lumina-dynamic-v'' @ APP_VERSION"

definition RUNTIME_CACHE :: string where
  "RUNTIME_CACHE = ''lumina-runtime-v'' @ APP_VERSION"

definition ASSETS_CACHE :: string where
  "ASSETS_CACHE = ''lumina-assets-v'' @ APP_VERSION"

definition CORE_FILES :: "string list" where
  "CORE_FILES = [''/'', ''/index.html'', ''/exercises.html'', ''/dashboard.html'',
     ''/monitor.html'', ''/analytics.html'', ''/profile.html'', ''/settings.html'',
     ''/manifest.json'']"

definition EXERCISE_ASSETS :: "string list" where
  "EXERCISE_ASSETS = [''/icons/icon-192.png'', ''/icons/icon-512.png'',
     ''/icons/maskable-icon-192.png'', ''/icons/maskable-icon-512.png'',
     ''/screenshots/exercises-mobile.png'', ''/screenshots/trainer-mobile.png'']"

definition EXTERNAL_RESOURCES :: "string list" where
  "EXTERNAL_RESOURCES =
     [''https://fonts.googleapis.com/css2?family=Inter:wght@300;400;500;600;700;800;900&display=swap'']"

definition NETWORK_FIRST_URLS :: "string list" where
  "NETWORK_FIRST_URLS = [''/api/'', ''/health-check'', ''/sync'']"

section \<open>String tests\<close>

fun starts_with :: "string \<Rightarrow> string \<Rightarrow> bool" where
  "starts_with s [] = True"
| "starts_with [] (p # ps) = False"
| "starts_with (c # cs) (p # ps) = (c = p \<and> starts_with cs ps)"

definition ends_with :: "string \<Rightarrow> string \<Rightarrow> bool" where
  "ends_with s p = starts_with (rev s) (rev p)"

fun str_includes :: "string \<Rightarrow> string \<Rightarrow> bool" where
  "str_includes [] p = (p = [])"
| "str_includes (c # cs) p = (starts_with (c # cs) p \<or> str_includes cs p)"

section \<open>Request classification\<close>

definition isStaticAsset :: "string \<Rightarrow> bool" where
  "isStaticAsset p =
     (str_includes p ''/icons/'' \<or> str_includes p ''/screenshots/'' \<or> ends_with p ''.css'' \<or>
      ends_with p ''.js'' \<or> ends_with p ''.png'' \<or> ends_with p ''.svg'' \<or>
      ends_with p ''.jpg'' \<or> ends_with p ''.jpeg'' \<or> ends_with p ''.webp'')"

definition isFontRequest :: "string \<Rightarrow> bool" where
  "isFontRequest host = (host = ''fonts.googleapis.com'' \<or> host = ''fonts.gstatic.com'')"

definition shouldCacheExternal :: "string \<Rightarrow> bool" where
  "shouldCacheExternal u =
     (str_includes u ''fonts.googleapis.com'' \<or> str_includes u ''fonts.gstatic.com'' \<or>
      (str_includes u ''api.'' \<and> str_includes u ''static''))"

definition isNetworkFirst :: "string \<Rightarrow> bool" where
  "isNetworkFirst p = list_ex (\<lambda>path. starts_with p path) NETWORK_FIRST_URLS"

section \<open>Caching strategies\<close>

text \<open>
  A promise settles to a value or rejects. A handler's value is a response or
  \<^verbatim>\<open>undefined\<close> (\<open>None\<close>).
\<close>

datatype 'a settled = Fulfilled 'a | Rejected

text \<open>
  The offline page. Its markup is one constant template of the source; the model keeps
  the document type and title of it, and of its headers the Content-Type.
\<close>

definition offlineHTML :: string where
  "offlineHTML = ''<!DOCTYPE html><title>Lumina AI - Offline Eye Trainer</title>''"

definition createOfflineExercisePage :: response where
  "createOfflineExercisePage = \<lparr>status = 200, content_type = ''text/html'', body = offlineHTML\<rparr>"

definition response404 :: response where
  "response404 = \<lparr>status = 404, content_type = [], body = []\<rparr>"

definition plain_fetch :: "request \<Rightarrow> netreq" where
  "plain_fetch req = \<lparr>nurl = url req, nmethod = http_method req, nbody = [], ncors_omit = False\<rparr>"

definition cors_fetch :: "request \<Rightarrow> netreq" where
  "cors_fetch req = \<lparr>nurl = url req, nmethod = http_method req, nbody = [], ncors_omit = True\<rparr>"

definition put_if_200 :: "env \<Rightarrow> string \<Rightarrow> request \<Rightarrow> response \<Rightarrow> sw_state \<Rightarrow> sw_state" where
  "put_if_200 e name req r s =
     (if status r = 200 then s\<lparr>caches := cache_put name (ident e (url req)) r (caches s)\<rparr>
      else s)"

definition handleCacheFirst :: "env \<Rightarrow> request \<Rightarrow> sw_state \<Rightarrow> response option settled \<times> sw_state" where
  "handleCacheFirst e req s =
     (case caches_match (caches s) (ident e (url req)) of
        Some cached \<Rightarrow> (Fulfilled (Some cached), s)
      | None \<Rightarrow>
          (case fetch e (plain_fetch req) s of
             (Some r, s1) \<Rightarrow> (Fulfilled (Some r), put_if_200 e RUNTIME_CACHE req r s1)
           | (None, s1) \<Rightarrow>
               (if destination req = ''document''
                then (Fulfilled (Some createOfflineExercisePage), s1)
                else (Rejected, s1))))"

definition handleNetworkFirst :: "env \<Rightarrow> request \<Rightarrow> sw_state \<Rightarrow> response option settled \<times> sw_state" where
  "handleNetworkFirst e req s =
     (case fetch e (plain_fetch req) s of
        (Some r, s1) \<Rightarrow> (Fulfilled (Some r), put_if_200 e RUNTIME_CACHE req r s1)
      | (None, s1) \<Rightarrow>
          (case caches_match (caches s1) (ident e (url req)) of
             Some cached \<Rightarrow> (Fulfilled (Some cached), s1)
           | None \<Rightarrow> (Rejected, s1)))"

text \<open>
  Stale-while-revalidate always starts the network call. Its \<^verbatim>\<open>catch\<close> turns a
  failed call into \<^verbatim>\<open>cachedResponse\<close>, which is \<^verbatim>\<open>undefined\<close> when nothing was
  cached.
\<close>

definition handleStaleWhileRevalidate :: "env \<Rightarrow> request \<Rightarrow> sw_state \<Rightarrow> response option settled \<times> sw_state" where
  "handleStaleWhileRevalidate e req s =
     (let cachedResponse = caches_match (caches s) (ident e (url req))
      in case fetch e (plain_fetch req) s of
           (Some r, s1) \<Rightarrow>
             (Fulfilled (case cachedResponse of Some c \<Rightarrow> Some c | None \<Rightarrow> Some r),
              put_if_200 e RUNTIME_CACHE req r s1)
         | (None, s1) \<Rightarrow>
             (Fulfilled (case cachedResponse of Some c \<Rightarrow> Some c | None \<Rightarrow> cachedResponse), s1))"

definition handleFontRequest :: "env \<Rightarrow> request \<Rightarrow> sw_state \<Rightarrow> response option settled \<times> sw_state" where
  "handleFontRequest e req s =
     (case caches_match (caches s) (ident e (url req)) of
        Some cached \<Rightarrow> (Fulfilled (Some cached), s)
      | None \<Rightarrow>
          (case fetch e (cors_fetch req) s of
             (Some r, s1) \<Rightarrow> (Fulfilled (Some r), put_if_200 e DYNAMIC_CACHE req r s1)
           | (None, s1) \<Rightarrow>
               (case caches_match (caches s1) (ident e (url req)) of
                  Some cached \<Rightarrow> (Fulfilled (Some cached), s1)
                | None \<Rightarrow> (Fulfilled (Some response404), s1))))"

definition handleExternalRequest :: "env \<Rightarrow> request \<Rightarrow> sw_state \<Rightarrow> response option settled \<times> sw_state" where
  "handleExternalRequest e req s =
     (case fetch e (plain_fetch req) s of
        (Some r, s1) \<Rightarrow>
          (Fulfilled (Some r),
           if status r = 200 \<and> shouldCacheExternal (url req)
           then s1\<lparr>caches := cache_put DYNAMIC_CACHE (ident e (url req)) r (caches s1)\<rparr>
           else s1)
      | (None, s1) \<Rightarrow>
          (case caches_match (caches s1) (ident e (url req)) of
             Some cached \<Rightarrow> (Fulfilled (Some cached), s1)
           | None \<Rightarrow> (Fulfilled (Some response404), s1)))"

definition handleSameOriginRequest :: "env \<Rightarrow> request \<Rightarrow> sw_state \<Rightarrow> response option settled \<times> sw_state" where
  "handleSameOriginRequest e req s =
     (if isNetworkFirst (pathname req) then handleNetworkFirst e req s
      else if isStaticAsset (pathname req) then handleCacheFirst e req s
      else if destination req = ''document'' \<or> ends_with (pathname req) ''.html''
      then handleStaleWhileRevalidate e req s
      else handleCacheFirst e req s)"

text \<open>
  The fetch listener either returns without calling \<^verbatim>\<open>respondWith\<close>, which leaves
  the request to the browser's default path, or responds with a handler's promise.
\<close>

datatype fetch_result = NotIntercepted | RespondWith "response option settled"

definition fetch_listener :: "env \<Rightarrow> request \<Rightarrow> sw_state \<Rightarrow> fetch_result \<times> sw_state" where
  "fetch_listener e req s =
     (if http_method req \<noteq> ''GET'' \<or> protocol req = ''chrome-extension:'' then (NotIntercepted, s)
      else if origin req = location_origin e
      then (case handleSameOriginRequest e req s of (r, s1) \<Rightarrow> (RespondWith r, s1))
      else if isFontRequest (hostname req)
      then (case handleFontRequest e req s of (r, s1) \<Rightarrow> (RespondWith r, s1))
      else (case handleExternalRequest e req s of (r, s1) \<Rightarrow> (RespondWith r, s1)))"

section \<open>Background sync: replay of queued mutations\<close>

text \<open>
  What \<^verbatim>\<open>for (const data of pending)\<close> iterates once
  \<^verbatim>\<open>pending && pending.length > 0\<close> has let it through: the elements of a non-empty
  array, the characters of a non-empty string. Every other document does nothing: it
  is falsy or has no length, or (an object with a positive \<^verbatim>\<open>length\<close> field) the loop
  throws at once, being given no iterable, and the \<^verbatim>\<open>catch\<close> logs it.
\<close>

fun pending_items :: "json \<Rightarrow> json list" where
  "pending_items (JArr xs) = xs"
| "pending_items (JStr cs) = map (\<lambda>c. JStr [c]) cs"
| "pending_items v = []"

fun truthy :: "json \<Rightarrow> bool" where
  "truthy JNull = False"
| "truthy (JBool b) = b"
| "truthy (JNum n) = (n \<noteq> 0)"
| "truthy (JStr cs) = (cs \<noteq> [])"
| "truthy (JArr xs) = True"
| "truthy (JObj kvs) = True"

definition mutation_call :: "env \<Rightarrow> string \<Rightarrow> string \<Rightarrow> json \<Rightarrow> netreq" where
  "mutation_call e endpoint meth d =
     \<lparr>nurl = endpoint, nmethod = meth, nbody = stringify e d, ncors_omit = False\<rparr>"

text \<open>
  The loop of awaited calls. It stops at the first call that rejects (\<open>False\<close>: control
  goes to the \<^verbatim>\<open>catch\<close>); a call that settles with a response, whatever its status,
  lets the loop go on.
\<close>

fun replay_loop :: "env \<Rightarrow> string \<Rightarrow> string \<Rightarrow> json list \<Rightarrow> sw_state \<Rightarrow> bool \<times> sw_state" where
  "replay_loop e endpoint meth [] s = (True, s)"
| "replay_loop e endpoint meth (d # ds) s =
     (case fetch e (mutation_call e endpoint meth d) s of
        (None, s1) \<Rightarrow> (False, s1)
      | (Some r, s1) \<Rightarrow> replay_loop e endpoint meth ds s1)"

definition post_all :: "message \<Rightarrow> sw_state \<Rightarrow> sw_state" where
  "post_all m s = s\<lparr>posted := posted s @ map (\<lambda>c. (c, m)) (clients s)\<rparr>"

definition EXERCISE_DATA_SYNCED :: message where
  "EXERCISE_DATA_SYNCED =
     \<lparr>mtype = ''EXERCISE_DATA_SYNCED'', mversion = None, mtext = ''Exercise progress synchronized''\<rparr>"

definition syncExerciseData :: "env \<Rightarrow> sw_state \<Rightarrow> sw_state" where
  "syncExerciseData e s =
     (case getStoredData e ''pending-exercise-data'' s of
        (exerciseData, s1) \<Rightarrow>
          (if pending_items exerciseData = [] then s1
           else (case replay_loop e ''/api/exercises/progress'' ''POST'' (pending_items exerciseData) s1 of
                   (False, s2) \<Rightarrow> s2
                 | (True, s2) \<Rightarrow>
                     post_all EXERCISE_DATA_SYNCED (clearStoredData e ''pending-exercise-data'' s2))))"

definition syncEyeHealthData :: "env \<Rightarrow> sw_state \<Rightarrow> sw_state" where
  "syncEyeHealthData e s =
     (case getStoredData e ''pending-health-data'' s of
        (healthData, s1) \<Rightarrow>
          (if pending_items healthData = [] then s1
           else (case replay_loop e ''/api/eye-health'' ''POST'' (pending_items healthData) s1 of
                   (False, s2) \<Rightarrow> s2
                 | (True, s2) \<Rightarrow> clearStoredData e ''pending-health-data'' s2)))"

definition syncUserSettings :: "env \<Rightarrow> sw_state \<Rightarrow> sw_state" where
  "syncUserSettings e s =
     (case getStoredData e ''pending-settings'' s of
        (settings, s1) \<Rightarrow>
          (if truthy settings
           then (case fetch e (mutation_call e ''/api/settings'' ''PUT'' settings) s1 of
                   (None, s2) \<Rightarrow> s2
                 | (Some r, s2) \<Rightarrow> clearStoredData e ''pending-settings'' s2)
           else s1))"

definition sync_listener :: "env \<Rightarrow> string \<Rightarrow> sw_state \<Rightarrow> sw_state" where
  "sync_listener e tag s =
     (if tag = ''sync-exercise-data'' then syncExerciseData e s
      else if tag = ''sync-eye-health'' then syncEyeHealthData e s
      else if tag = ''sync-user-settings'' then syncUserSettings e s
      else s)"

text \<open>The durable key a sync tag replays, if any.\<close>

definition sync_key :: "string \<Rightarrow> string option" where
  "sync_key tag =
     (if tag = ''sync-exercise-data'' then Some ''pending-exercise-data''
      else if tag = ''sync-eye-health'' then Some ''pending-health-data''
      else if tag = ''sync-user-settings'' then Some ''pending-settings''
      else None)"

section \<open>Install\<close>

text \<open>
  \<^verbatim>\<open>cache.addAll\<close> belongs to the platform: it fetches every request and stores the
  responses only if every fetch settled with an ok status (200 to 299) other than 206;
  otherwise it rejects and stores nothing. \<^verbatim>\<open>cache.add\<close> is \<^verbatim>\<open>addAll\<close> of one request. The three
  tiers are filled in parallel; the model numbers their network calls in the order the
  source lists them.
\<close>

definition response_ok :: "response \<Rightarrow> bool" where
  "response_ok r = (200 \<le> status r \<and> status r \<le> 299)"

definition addable :: "response \<Rightarrow> bool" where
  "addable r = (response_ok r \<and> status r \<noteq> 206)"

fun fetch_all :: "env \<Rightarrow> netreq list \<Rightarrow> sw_state \<Rightarrow> (netreq \<times> response option) list \<times> sw_state" where
  "fetch_all e [] s = ([], s)"
| "fetch_all e (q # qs) s =
     (case fetch e q s of
        (r, s1) \<Rightarrow> (case fetch_all e qs s1 of (rs, s2) \<Rightarrow> ((q, r) # rs, s2)))"

fun all_ok :: "(netreq \<times> response option) list \<Rightarrow> bool" where
  "all_ok [] = True"
| "all_ok ((q, None) # rs) = False"
| "all_ok ((q, Some r) # rs) = (addable r \<and> all_ok rs)"

fun put_all :: "env \<Rightarrow> string \<Rightarrow> (netreq \<times> response option) list \<Rightarrow> cache_storage \<Rightarrow> cache_storage" where
  "put_all e name [] cs = cs"
| "put_all e name ((q, None) # rs) cs = put_all e name rs cs"
| "put_all e name ((q, Some r) # rs) cs =
     put_all e name rs (cache_put name (ident e (nurl q)) r cs)"

definition addAll :: "env \<Rightarrow> string \<Rightarrow> netreq list \<Rightarrow> sw_state \<Rightarrow> bool \<times> sw_state" where
  "addAll e name qs s =
     (case fetch_all e qs s of
        (rs, s1) \<Rightarrow>
          (if all_ok rs then (True, s1\<lparr>caches := put_all e name rs (caches s1)\<rparr>) else (False, s1)))"

fun add_each :: "env \<Rightarrow> string \<Rightarrow> netreq list \<Rightarrow> sw_state \<Rightarrow> bool \<times> sw_state" where
  "add_each e name [] s = (True, s)"
| "add_each e name (q # qs) s =
     (case addAll e name [q] s of
        (ok, s1) \<Rightarrow> (case add_each e name qs s1 of (oks, s2) \<Rightarrow> (ok \<and> oks, s2)))"

definition seed :: "string \<Rightarrow> netreq" where
  "seed u = \<lparr>nurl = u, nmethod = ''GET'', nbody = [], ncors_omit = False\<rparr>"

definition cors_seed :: "string \<Rightarrow> netreq" where
  "cors_seed u = \<lparr>nurl = u, nmethod = ''GET'', nbody = [], ncors_omit = True\<rparr>"

definition open_cache :: "string \<Rightarrow> sw_state \<Rightarrow> sw_state" where
  "open_cache name s = s\<lparr>caches := caches_open name (caches s)\<rparr>"

text \<open>
  The promise given to \<^verbatim>\<open>event.waitUntil\<close>. Its \<^verbatim>\<open>then\<close> requests immediate
  activation; its \<^verbatim>\<open>catch\<close> logs the failure and returns, so the promise is fulfilled
  either way.
\<close>

definition install :: "env \<Rightarrow> sw_state \<Rightarrow> unit settled \<times> sw_state" where
  "install e s =
     (case addAll e STATIC_CACHE (map seed CORE_FILES) (open_cache STATIC_CACHE s) of
        (ok1, s1) \<Rightarrow>
     (case addAll e ASSETS_CACHE (map seed EXERCISE_ASSETS) (open_cache ASSETS_CACHE s1) of
        (ok2, s2) \<Rightarrow>
     (case add_each e DYNAMIC_CACHE (map cors_seed EXTERNAL_RESOURCES) (open_cache DYNAMIC_CACHE s2) of
        (ok3, s3) \<Rightarrow>
          (if ok1 \<and> ok2 \<and> ok3 then (Fulfilled (), s3\<lparr>skip_waiting := True\<rparr>)
           else (Fulfilled (), s3)))))"

section \<open>Activate\<close>

definition validCacheNames :: "string list" where
  "validCacheNames = [CACHE_NAME, STATIC_CACHE, DYNAMIC_CACHE, RUNTIME_CACHE, ASSETS_CACHE]"

definition stale_caches :: "string list \<Rightarrow> string list" where
  "stale_caches cacheNames =
     filter (\<lambda>cacheName. starts_with cacheName ''lumina-'' \<and> cacheName \<notin> set validCacheNames)
       cacheNames"

definition SW_ACTIVATED :: message where
  "SW_ACTIVATED =
     \<lparr>mtype = ''SW_ACTIVATED'', mversion = Some APP_VERSION,
      mtext = ''Lumina AI Eye Trainer is ready offline!''\<rparr>"

text \<open>The state an activation ends in.\<close>

definition activate :: "sw_state \<Rightarrow> sw_state" where
  "activate s =
     post_all SW_ACTIVATED
       (s\<lparr>caches := fold caches_delete (stale_caches (caches_keys (caches s))) (caches s)\<rparr>)"

text \<open>
  The order of an activation's steps. A task is a promise expression: \<open>Prim\<close> an
  asynchronous platform call, \<open>Emit\<close> a synchronous effect, \<open>All\<close> is
  \<^verbatim>\<open>Promise.all\<close> of an array literal or a \<^verbatim>\<open>map\<close>, and \<open>Then p q\<close> is
  \<^verbatim>\<open>p.then(() => q)\<close>. Evaluating a task starts, synchronously and in order, every
  call not under a \<^verbatim>\<open>then\<close> (\<open>started\<close>); what follows (\<open>rest\<close>) is any
  interleaving of the completions of parallel tasks, a \<^verbatim>\<open>then\<close> callback running
  once its promise has settled.
\<close>

datatype action =
    CachesKeys
  | CachesDelete string
  | ClientsClaim
  | ClientsMatchAll
  | PostMessage string message

datatype event = Started action | Completed action

datatype task = Prim action | Emit action | All "task list" | Then task task

fun interleave :: "'a list \<Rightarrow> 'a list \<Rightarrow> 'a list list" where
  "interleave [] ys = [ys]"
| "interleave xs [] = [xs]"
| "interleave (x # xs) (y # ys) =
     map ((#) x) (interleave xs (y # ys)) @ map ((#) y) (interleave (x # xs) ys)"

fun started :: "task \<Rightarrow> event list" where
  "started (Prim a) = [Started a]"
| "started (Emit a) = [Completed a]"
| "started (All ts) = concat (map started ts)"
| "started (Then p q) = started p"

fun rest :: "task \<Rightarrow> event list list" where
  "rest (Prim a) = [[Completed a]]"
| "rest (Emit a) = [[]]"
| "rest (All ts) =
     foldr (\<lambda>t acc. concat (map (\<lambda>r. concat (map (interleave r) acc)) (rest t))) ts [[]]"
| "rest (Then p q) =
     concat (map (\<lambda>rp. map (\<lambda>rq. rp @ started q @ rq) (rest q)) (rest p))"

definition traces :: "task \<Rightarrow> event list list" where
  "traces t = map (\<lambda>r. started t @ r) (rest t)"

definition activate_task :: "sw_state \<Rightarrow> task" where
  "activate_task s =
     Then
       (All [Then (Prim CachesKeys)
               (All (map (\<lambda>cacheName. Prim (CachesDelete cacheName))
                       (stale_caches (caches_keys (caches s))))),
             Prim ClientsClaim])
       (Then (Prim ClientsMatchAll)
          (All (map (\<lambda>client. Emit (PostMessage client SW_ACTIVATED)) (clients s))))"

text \<open>In a trace, \<open>a\<close> occurs, and no \<open>b\<close> occurs before its first occurrence.\<close>

definition precedes :: "event \<Rightarrow> event \<Rightarrow> event list \<Rightarrow> bool" where
  "precedes a b t = (a \<in> set t \<and> b \<notin> set (takeWhile (\<lambda>x. x \<noteq> a) t))"

section \<open>Messages from clients and the events of the worker\<close>

definition clearAllCaches :: "sw_state \<Rightarrow> sw_state" where
  "clearAllCaches s =
     s\<lparr>caches := fold caches_delete
          (filter (\<lambda>name. starts_with name ''lumina-'') (caches_keys (caches s))) (caches s)\<rparr>"

text \<open>
  The messages that reach the cache storage or the activation request. The cache-status
  query only answers on its reply port, and the reminder scheduling stores the reminder
  configuration, with the current time, under a key of its own; these two, and the push,
  notification and periodic-sync listeners, are not modelled.
\<close>

datatype client_message =
    SKIP_WAITING
  | STORE_EXERCISE_DATA string json
  | CLEAR_CACHE

fun message_listener :: "env \<Rightarrow> client_message \<Rightarrow> sw_state \<Rightarrow> sw_state" where
  "message_listener e SKIP_WAITING s = s\<lparr>skip_waiting := True\<rparr>"
| "message_listener e (STORE_EXERCISE_DATA key v) s = storeData e key v s"
| "message_listener e CLEAR_CACHE s = clearAllCaches s"

datatype sw_event =
    FetchEvent request
  | InstallEvent
  | ActivateEvent
  | SyncEvent string
  | MessageEvent client_message

fun dispatch :: "env \<Rightarrow> sw_event \<Rightarrow> sw_state \<Rightarrow> sw_state" where
  "dispatch e (FetchEvent req) s = snd (fetch_listener e req s)"
| "dispatch e InstallEvent s = snd (install e s)"
| "dispatch e ActivateEvent s = activate s"
| "dispatch e (SyncEvent tag) s = sync_listener e tag s"
| "dispatch e (MessageEvent m) s = message_listener e m s"

fun dispatch_all :: "env \<Rightarrow> sw_event list \<Rightarrow> sw_state \<Rightarrow> sw_state" where
  "dispatch_all e [] s = s"
| "dispatch_all e (ev # evs) s = dispatch_all e evs (dispatch e ev s)"

text \<open>
  The events that leave the durable record of \<open>key\<close> alone: every one but a store
  under a key of the same request identity, a replay of a topic kept under such a key,
  the cache-clear command and an activation.
\<close>

fun keeps :: "env \<Rightarrow> string \<Rightarrow> sw_event \<Rightarrow> bool" where
  "keeps e key (FetchEvent req) = True"
| "keeps e key InstallEvent = True"
| "keeps e key ActivateEvent = False"
| "keeps e key (SyncEvent tag) =
     (case sync_key tag of None \<Rightarrow> True | Some key' \<Rightarrow> \<not> same_identity e key' key)"
| "keeps e key (MessageEvent SKIP_WAITING) = True"
| "keeps e key (MessageEvent (STORE_EXERCISE_DATA key' v)) = (\<not> same_identity e key' key)"
| "keeps e key (MessageEvent CLEAR_CACHE) = False"


section \<open>Strategies by name\<close>

datatype strategy = CacheFirst | NetworkFirst | StaleWhileRevalidate | Font | External

fun run_strategy :: "strategy \<Rightarrow> env \<Rightarrow> request \<Rightarrow> sw_state \<Rightarrow> response option settled \<times> sw_state" where
  "run_strategy CacheFirst e req s = handleCacheFirst e req s"
| "run_strategy NetworkFirst e req s = handleNetworkFirst e req s"
| "run_strategy StaleWhileRevalidate e req s = handleStaleWhileRevalidate e req s"
| "run_strategy Font e req s = handleFontRequest e req s"
| "run_strategy External e req s = handleExternalRequest e req s"

text \<open>The tier a strategy writes to.\<close>

fun strategy_tier :: "strategy \<Rightarrow> string" where
  "strategy_tier CacheFirst = RUNTIME_CACHE"
| "strategy_tier NetworkFirst = RUNTIME_CACHE"
| "strategy_tier StaleWhileRevalidate = RUNTIME_CACHE"
| "strategy_tier Font = DYNAMIC_CACHE"
| "strategy_tier External = DYNAMIC_CACHE"

section \<open>What the network answers to a sequence of calls\<close>

text \<open>
  The calls \<open>qs\<close>, issued one after the other from the \<open>n\<close>-th call of the run on, with
  what each settles to; and whether each of a replay's calls settles with a response.
\<close>

fun outcomes :: "env \<Rightarrow> nat \<Rightarrow> netreq list \<Rightarrow> (netreq \<times> response option) list" where
  "outcomes e n [] = []"
| "outcomes e n (q # qs) = (q, net e n q) # outcomes e (Suc n) qs"

fun all_resolve :: "env \<Rightarrow> nat \<Rightarrow> string \<Rightarrow> string \<Rightarrow> json list \<Rightarrow> bool" where
  "all_resolve e n endpoint meth [] = True"
| "all_resolve e n endpoint meth (d # ds) =
     (net e n (mutation_call e endpoint meth d) \<noteq> None \<and> all_resolve e (Suc n) endpoint meth ds)"

definition all_seeds :: "netreq list" where
  "all_seeds = map seed CORE_FILES @ map seed EXERCISE_ASSETS @ map cors_seed EXTERNAL_RESOURCES"

section \<open>Sample inputs\<close>

text \<open>
  Environments for concrete runs. Their JSON functions are right on the few documents
  the runs use. Their request identity resolves a path against the origin and drops
  the fragment, as the Cache API does (dot segments are left as they are). In \<open>sample_env\<close> every network call is answered 200, in \<open>offline_env\<close>
  every call fails, in \<open>error_env\<close> the server answers 500 to every call, and in
  \<open>flaky_env\<close> the call numbered 1 fails and the others are answered 200.
\<close>

definition ok_response :: response where
  "ok_response = \<lparr>status = 200, content_type = ''application/json'', body = ''{}''\<rparr>"

definition error_response :: response where
  "error_response = \<lparr>status = 500, content_type = ''text/plain'', body = ''Internal Server Error''\<rparr>"

definition sample_stringify :: "json \<Rightarrow> string" where
  "sample_stringify v =
     (if v = JBool True then ''true''
      else if v = JArr [JBool True] then ''[true]''
      else if v = JArr [JBool True, JNull, JBool True] then ''[true,null,true]''
      else ''null'')"

definition sample_parse :: "string \<Rightarrow> json option" where
  "sample_parse t =
     (if t = ''true'' then Some (JBool True)
      else if t = ''[true]'' then Some (JArr [JBool True])
      else if t = ''[true,null,true]'' then Some (JArr [JBool True, JNull, JBool True])
      else if t = ''null'' then Some JNull
      else None)"

definition sample_ident :: "string \<Rightarrow> string" where
  "sample_ident u =
     (if starts_with u ''/'' then ''https://lumina.example'' @ takeWhile (\<lambda>c. c \<noteq> CHR ''#'') u
      else takeWhile (\<lambda>c. c \<noteq> CHR ''#'') u)"

definition sample_env :: env where
  "sample_env =
     \<lparr>net = (\<lambda>n r. Some ok_response), stringify = sample_stringify, parse = sample_parse,
      location_origin = ''https://lumina.example'', ident = sample_ident\<rparr>"

definition offline_env :: env where
  "offline_env = sample_env\<lparr>net := (\<lambda>n r. None)\<rparr>"

definition error_env :: env where
  "error_env = sample_env\<lparr>net := (\<lambda>n r. Some error_response)\<rparr>"

definition flaky_env :: env where
  "flaky_env = sample_env\<lparr>net := (\<lambda>n r. if n = 1 then None else Some ok_response)\<rparr>"

definition empty_state :: sw_state where
  "empty_state = \<lparr>caches = [], netlog = [], clients = [], posted = [], skip_waiting = False\<rparr>"

definition two_clients :: sw_state where
  "two_clients = empty_state\<lparr>clients := [''tab-1'', ''tab-2'']\<rparr>"

definition document_request :: request where
  "document_request =
     \<lparr>url = ''https://lumina.example/exercises.html'', http_method = ''GET'',
      destination = ''document'', protocol = ''https:'', origin = ''https://lumina.example'',
      hostname = ''lumina.example'', pathname = ''/exercises.html''\<rparr>"

definition icon_request :: request where
  "icon_request =
     \<lparr>url = ''https://lumina.example/icons/icon-192.png'', http_method = ''GET'',
      destination = ''image'', protocol = ''https:'', origin = ''https://lumina.example'',
      hostname = ''lumina.example'', pathname = ''/icons/icon-192.png''\<rparr>"

definition extension_request :: request where
  "extension_request =
     \<lparr>url = ''moz-extension://0a1b2c/content.js'', http_method = ''GET'',
      destination = ''script'', protocol = ''moz-extension:'', origin = ''moz-extension://0a1b2c'',
      hostname = ''0a1b2c'', pathname = ''/content.js''\<rparr>"

definition post_request :: request where
  "post_request =
     \<lparr>url = ''https://lumina.example/api/exercises/progress'', http_method = ''POST'',
      destination = [], protocol = ''https:'', origin = ''https://lumina.example'',
      hostname = ''lumina.example'', pathname = ''/api/exercises/progress''\<rparr>"

text \<open>States with a queue of pending mutations under one topic.\<close>

definition queued_exercise :: sw_state where
  "queued_exercise = storeData sample_env ''pending-exercise-data'' (JArr [JBool True]) two_clients"

definition queued_three :: sw_state where
  "queued_three =
     storeData sample_env ''pending-exercise-data'' (JArr [JBool True, JNull, JBool True]) two_clients"

definition queued_health :: sw_state where
  "queued_health = storeData sample_env ''pending-health-data'' (JArr [JBool True]) two_clients"

text \<open>
  A state with a namespace of the previous generation and one open client, and one of
  the orders in which its activation can run.
\<close>

definition old_generation :: sw_state where
  "old_generation =
     \<lparr>caches = [(''lumina-static-v2.4.0'', []), (STATIC_CACHE, [])], netlog = [],
      clients = [''tab-1''], posted = [], skip_waiting = False\<rparr>"

definition sample_trace :: "event list" where
  "sample_trace =
     [Started CachesKeys, Started ClientsClaim, Completed CachesKeys,
      Started (CachesDelete ''lumina-static-v2.4.0''), Completed ClientsClaim,
      Completed (CachesDelete ''lumina-static-v2.4.0''),
      Started ClientsMatchAll, Completed ClientsMatchAll,
      Completed (PostMessage ''tab-1'' SW_ACTIVATED)]"


section \<open>Facts about the cache storage\<close>

lemma map_of_caches_open:
  "map_of (caches_open name cs) n =
     (if n = name \<and> map_of cs name = None then Some [] else map_of cs n)"
  by (auto simp: caches_open_def map_add_def split: option.splits)

lemma named_cache_caches_open [simp]:
  "named_cache (caches_open name cs) n = named_cache cs n"
  by (simp add: named_cache_def map_of_caches_open)

lemma named_cache_update [simp]:
  "named_cache (AList.update name c cs) n = (if n = name then c else named_cache cs n)"
  by (simp add: named_cache_def update_conv')

lemma cache_match_put:
  "cache_match n k (cache_put name k' r cs) =
     (if n = name \<and> k = k' then Some r else cache_match n k cs)"
  by (simp add: cache_match_def cache_put_def Let_def update_conv')

lemma cache_match_delete:
  "cache_match n k (cache_delete name k' cs) =
     (if n = name \<and> k = k' then None else cache_match n k cs)"
  by (simp add: cache_match_def cache_delete_def Let_def delete_conv')

lemma cache_match_open [simp]:
  "cache_match n k (caches_open name cs) = cache_match n k cs"
  by (simp add: cache_match_def)

lemma data_url_inject [simp]: "data_url k = data_url k' \<longleftrightarrow> k = k'"
  by (simp add: data_url_def)

lemma tier_names_distinct:
  "DATA_CACHE \<noteq> RUNTIME_CACHE" "DATA_CACHE \<noteq> DYNAMIC_CACHE"
  "DATA_CACHE \<noteq> STATIC_CACHE" "DATA_CACHE \<noteq> ASSETS_CACHE"
  by (simp_all add: DATA_CACHE_def RUNTIME_CACHE_def DYNAMIC_CACHE_def STATIC_CACHE_def
      ASSETS_CACHE_def)

lemma fetch_caches [simp]: "caches (snd (fetch e q s)) = caches s"
  by (simp add: fetch_def)

section \<open>The durable store returns what was last written\<close>

lemma raw_after_ops:
  "cache_match DATA_CACHE (ident e (data_url k)) (caches s) = map_option (data_response e) acc \<Longrightarrow>
   cache_match DATA_CACHE (ident e (data_url k)) (caches (run_data_ops e ops s)) =
     map_option (data_response e) (last_written e ops k acc)"
proof (induction ops arbitrary: s acc)
  case Nil
  then show ?case by simp
next
  case (Cons x xs)
  show ?case
  proof (cases x)
    case (Store k' v)
    have "cache_match DATA_CACHE (ident e (data_url k)) (caches (storeData e k' v s)) =
            map_option (data_response e) (if same_identity e k' k then Some v else acc)"
      using Cons.prems by (auto simp: storeData_def cache_match_put same_identity_def)
    from Cons.IH [OF this] show ?thesis using Store by simp
  next
    case (Clear k')
    have "cache_match DATA_CACHE (ident e (data_url k)) (caches (clearStoredData e k' s)) =
            map_option (data_response e) (if same_identity e k' k then None else acc)"
      using Cons.prems by (auto simp: clearStoredData_def cache_match_delete same_identity_def)
    from Cons.IH [OF this] show ?thesis using Clear by simp
  qed
qed

text \<open>
  C10, as the code has it: after any history of \<^verbatim>\<open>storeData\<close> and
  \<^verbatim>\<open>clearStoredData\<close> calls on a store that held nothing for the key,
  \<^verbatim>\<open>getStoredData\<close> returns the value last stored under a key of the same request
  identity, provided the JSON round trip gives that value back, and \<^verbatim>\<open>null\<close> when no
  such key was written or the last call on such a key was a clear. In particular a
  value stored under a key is read back under that key.
\<close>

theorem storeData_getStoredData_roundtrip:
  assumes "cache_match DATA_CACHE (ident e (data_url k)) (caches s) = None"
    and "\<And>v. last_written e ops k None = Some v \<Longrightarrow> json_serializable e v"
  shows "fst (getStoredData e k (run_data_ops e ops s)) =
           (case last_written e ops k None of Some v \<Rightarrow> v | None \<Rightarrow> JNull)"
proof -
  have raw: "cache_match DATA_CACHE (ident e (data_url k)) (caches (run_data_ops e ops s)) =
          map_option (data_response e) (last_written e ops k None)"
    using assms(1) by (intro raw_after_ops) simp
  show ?thesis
  proof (cases "last_written e ops k None")
    case None
    then show ?thesis using raw by (simp add: getStoredData_def)
  next
    case (Some v)
    then have "parse e (stringify e v) = Some v"
      using assms(2) by (simp add: json_serializable_def)
    then show ?thesis using raw Some
      by (simp add: getStoredData_def data_response_def)
  qed
qed

lemmas store_defs =
  storeData_def getStoredData_def clearStoredData_def data_response_def cache_put_def
  cache_delete_def cache_match_def caches_open_def named_cache_def DATA_CACHE_def data_url_def
  empty_state_def two_clients_def same_identity_def

lemmas env_defs =
  sample_env_def offline_env_def error_env_def flaky_env_def sample_ident_def
  sample_stringify_def sample_parse_def ok_response_def error_response_def

theorem storeData_getStoredData_roundtrip_witness:
  "fst (getStoredData sample_env ''pending-settings''
     (run_data_ops sample_env
        [Store ''pending-settings'' JNull, Store ''other'' JNull,
         Clear ''pending-settings'', Store ''pending-settings'' (JBool True), Clear ''other'']
        empty_state)) = JBool True
   \<and> fst (getStoredData sample_env ''other''
     (run_data_ops sample_env
        [Store ''pending-settings'' JNull, Store ''other'' JNull,
         Clear ''pending-settings'', Store ''pending-settings'' (JBool True), Clear ''other'']
        empty_state)) = JNull
   \<and> fst (getStoredData sample_env ''never''
     (run_data_ops sample_env
        [Store ''pending-settings'' JNull, Store ''other'' JNull,
         Clear ''pending-settings'', Store ''pending-settings'' (JBool True), Clear ''other'']
        empty_state)) = JNull"
proof -
  let ?ops = "[Store ''pending-settings'' JNull, Store ''other'' JNull,
         Clear ''pending-settings'', Store ''pending-settings'' (JBool True), Clear ''other'']"
  have e: "\<And>k. cache_match DATA_CACHE (ident sample_env (data_url k)) (caches empty_state) = None"
    by (simp add: empty_state_def cache_match_def named_cache_def)
  have ser: "json_serializable sample_env (JBool True)"
    by (simp add: json_serializable_def sample_env_def sample_stringify_def sample_parse_def)
  have w: "last_written sample_env ?ops ''pending-settings'' None = Some (JBool True)"
    "last_written sample_env ?ops ''other'' None = None"
    "last_written sample_env ?ops ''never'' None = None"
    by (simp_all add: same_identity_def data_url_def env_defs)
  show ?thesis
    using storeData_getStoredData_roundtrip [of sample_env "''pending-settings''" empty_state ?ops, OF e]
      storeData_getStoredData_roundtrip [of sample_env "''other''" empty_state ?ops, OF e]
      storeData_getStoredData_roundtrip [of sample_env "''never''" empty_state ?ops, OF e]
      ser w
    by simp
qed

text \<open>
  C10 as stated fails: the key \<^verbatim>\<open>k\<close> was never written, but \<^verbatim>\<open>/data/k#1\<close> and
  \<^verbatim>\<open>/data/k\<close> are one request identity, the fragment being ignored, so reading
  \<^verbatim>\<open>k\<close> returns what was stored under \<^verbatim>\<open>k#1\<close>.
\<close>

theorem never_written_key_reads_other_record:
  "ident sample_env (data_url ''k#1'') = ident sample_env (data_url ''k'')
   \<and> fst (getStoredData sample_env ''k'' empty_state) = JNull
   \<and> fst (getStoredData sample_env ''k''
         (storeData sample_env ''k#1'' (JBool True) empty_state)) = JBool True
   \<and> fst (getStoredData sample_env ''k''
         (storeData sample_env ''k#1'' (JBool True) empty_state)) \<noteq> JNull"
  by (simp add: store_defs env_defs)

section \<open>Which requests the fetch listener leaves alone\<close>

text \<open>
  C7, as the code has it: the fetch listener leaves a request to the default network
  path exactly when its method is not GET or its scheme is \<^verbatim>\<open>chrome-extension:\<close>.
  Every other request gets a response of the worker's own.
\<close>

theorem fetch_listener_skips:
  "fst (fetch_listener e req s) = NotIntercepted \<longleftrightarrow>
     http_method req \<noteq> ''GET'' \<or> protocol req = ''chrome-extension:''"
  by (simp add: fetch_listener_def split: prod.splits)

theorem fetch_listener_skips_witness:
  "fst (fetch_listener sample_env post_request empty_state) = NotIntercepted
   \<and> fst (fetch_listener sample_env icon_request empty_state) \<noteq> NotIntercepted"
  using fetch_listener_skips [of sample_env post_request empty_state]
    fetch_listener_skips [of sample_env icon_request empty_state]
  by (simp add: post_request_def icon_request_def)

text \<open>
  C7 as stated fails: a GET request whose scheme is neither http nor https, here
  \<^verbatim>\<open>moz-extension:\<close>, is intercepted and answered through the external strategy.
\<close>

theorem non_http_scheme_intercepted:
  "http_method extension_request = ''GET''
   \<and> protocol extension_request \<noteq> ''http:'' \<and> protocol extension_request \<noteq> ''https:''
   \<and> fst (fetch_listener sample_env extension_request empty_state)
       = RespondWith (Fulfilled (Some ok_response))"
  by (simp add: fetch_listener_def extension_request_def sample_env_def empty_state_def
      isFontRequest_def handleExternalRequest_def fetch_def plain_fetch_def split: prod.splits)

section \<open>Only status 200 is cached by a strategy\<close>

text \<open>
  C5: whenever one of the five strategies changes the cache storage, it made one
  network call, that call settled with a response of status exactly 200, and the change
  is the storing of that response under the request in the strategy's tier. So a
  response of any other status (a redirect, an error, an opaque response of status 0)
  and a failed call leave the storage as it was.
\<close>

theorem strategies_store_only_200:
  assumes "caches (snd (run_strategy st e req s)) \<noteq> caches s"
  shows "\<exists>q r. netlog (snd (run_strategy st e req s)) = netlog s @ [q]
           \<and> net e (length (netlog s)) q = Some r \<and> status r = 200
           \<and> caches (snd (run_strategy st e req s)) =
               cache_put (strategy_tier st) (ident e (url req)) r (caches s)"
  using assms
  by (cases st)
    (auto simp: handleCacheFirst_def handleNetworkFirst_def handleStaleWhileRevalidate_def
      handleFontRequest_def handleExternalRequest_def put_if_200_def fetch_def Let_def
      split: option.splits if_splits prod.splits)

theorem strategies_store_only_200_witness:
  "caches (snd (run_strategy CacheFirst sample_env icon_request empty_state)) \<noteq> caches empty_state
   \<and> (\<exists>q r. netlog (snd (run_strategy CacheFirst sample_env icon_request empty_state))
               = netlog empty_state @ [q]
           \<and> net sample_env (length (netlog empty_state)) q = Some r \<and> status r = 200
           \<and> caches (snd (run_strategy CacheFirst sample_env icon_request empty_state)) =
               cache_put (strategy_tier CacheFirst) (ident sample_env (url icon_request)) r
                 (caches empty_state))"
proof -
  have changed:
    "caches (snd (run_strategy CacheFirst sample_env icon_request empty_state)) \<noteq> caches empty_state"
    by (simp add: handleCacheFirst_def empty_state_def sample_env_def fetch_def put_if_200_def
        ok_response_def cache_put_def caches_open_def named_cache_def)
  from strategies_store_only_200 [OF changed] changed show ?thesis by blast
qed

section \<open>A cached static asset is served without the network\<close>




section \<open>A document request that fails both network and cache\<close>

lemma cache_first_offline_page:
  assumes "caches_match (caches s) (ident e (url req)) = None"
    and "net e (length (netlog s)) (plain_fetch req) = None"
    and "destination req = ''document''"
  shows "fst (handleCacheFirst e req s) = Fulfilled (Some createOfflineExercisePage)"
  using assms by (simp add: handleCacheFirst_def fetch_def)

text \<open>
  C2 does not hold of the code. A same-origin GET request classified as a document (no
  API prefix, no static-asset path, destination \<^verbatim>\<open>document\<close> or an \<^verbatim>\<open>.html\<close> path) goes
  to stale-while-revalidate, and when nothing is cached and the network call fails, the
  promise given to \<^verbatim>\<open>respondWith\<close> is fulfilled with \<^verbatim>\<open>undefined\<close>: no offline page.
  The offline page is built only in the cache-first strategy
  (\<open>cache_first_offline_page\<close>), which a document reaches only under a static-asset
  path.
\<close>

theorem document_offline_yields_undefined:
  assumes "http_method req = ''GET''" and "protocol req \<noteq> ''chrome-extension:''"
    and "origin req = location_origin e"
    and "\<not> isNetworkFirst (pathname req)" and "\<not> isStaticAsset (pathname req)"
    and "destination req = ''document'' \<or> ends_with (pathname req) ''.html''"
    and "caches_match (caches s) (ident e (url req)) = None"
    and "net e (length (netlog s)) (plain_fetch req) = None"
  shows "fst (fetch_listener e req s) = RespondWith (Fulfilled None)"
  using assms
  by (simp add: fetch_listener_def handleSameOriginRequest_def handleStaleWhileRevalidate_def
      fetch_def)

theorem document_offline_yields_undefined_witness:
  "fst (fetch_listener offline_env document_request empty_state) = RespondWith (Fulfilled None)
   \<and> fst (fetch_listener offline_env document_request empty_state)
       \<noteq> RespondWith (Fulfilled (Some createOfflineExercisePage))"
proof -
  have g: "http_method document_request = ''GET''"
    "protocol document_request \<noteq> ''chrome-extension:''"
    "origin document_request = location_origin offline_env"
    by (simp_all add: document_request_def offline_env_def sample_env_def)
  have a: "\<not> isNetworkFirst (pathname document_request)"
    "\<not> isStaticAsset (pathname document_request)"
    by (simp_all add: document_request_def isNetworkFirst_def NETWORK_FIRST_URLS_def
        isStaticAsset_def ends_with_def)
  have b: "destination document_request = ''document''
           \<or> ends_with (pathname document_request) ''.html''"
    by (simp add: document_request_def)
  have c: "caches_match (caches empty_state) (ident offline_env (url document_request)) = None"
    by (simp add: empty_state_def)
  have d: "net offline_env (length (netlog empty_state)) (plain_fetch document_request) = None"
    by (simp add: offline_env_def)
  show ?thesis
    using document_offline_yields_undefined [OF g a b c d] by simp
qed

section \<open>Replay of queued mutations\<close>

lemma getStoredData_snd:
  "snd (getStoredData e k s) = open_cache DATA_CACHE s"
  by (simp add: getStoredData_def open_cache_def Let_def split: option.splits)

lemma open_cache_fields [simp]:
  "netlog (open_cache n s) = netlog s" "posted (open_cache n s) = posted s"
  "clients (open_cache n s) = clients s" "skip_waiting (open_cache n s) = skip_waiting s"
  "caches (open_cache n s) = caches_open n (caches s)"
  by (simp_all add: open_cache_def)

lemma replay_loop_fst:
  "fst (replay_loop e ep m ds s) = all_resolve e (length (netlog s)) ep m ds"
  by (induction ds arbitrary: s) (auto simp: fetch_def split: option.splits)

lemma replay_loop_keeps:
  "caches (snd (replay_loop e ep m ds s)) = caches s"
  "posted (snd (replay_loop e ep m ds s)) = posted s"
  "clients (snd (replay_loop e ep m ds s)) = clients s"
  by (induction ds arbitrary: s) (auto simp: fetch_def split: option.splits)

lemma clearStoredData_fields [simp]:
  "posted (clearStoredData e k s) = posted s" "clients (clearStoredData e k s) = clients s"
  "netlog (clearStoredData e k s) = netlog s"
  by (simp_all add: clearStoredData_def)

lemma post_all_fields [simp]:
  "caches (post_all m s) = caches s" "clients (post_all m s) = clients s"
  "netlog (post_all m s) = netlog s"
  "posted (post_all m s) = posted s @ map (\<lambda>c. (c, m)) (clients s)"
  by (simp_all add: post_all_def)

lemma sync_list_topic:
  assumes "ds \<noteq> []"
  shows "cache_match DATA_CACHE (ident e (data_url k))
           (caches (case replay_loop e ep m ds (open_cache DATA_CACHE s) of
                      (False, s2) \<Rightarrow> s2
                    | (True, s2) \<Rightarrow> f (clearStoredData e k s2))) =
         (if all_resolve e (length (netlog s)) ep m ds
          then cache_match DATA_CACHE (ident e (data_url k)) (caches (f (clearStoredData e k (snd (replay_loop e ep m ds (open_cache DATA_CACHE s))))))
          else cache_match DATA_CACHE (ident e (data_url k)) (caches s))"
proof -
  obtain b s2 where r: "replay_loop e ep m ds (open_cache DATA_CACHE s) = (b, s2)"
    by (cases "replay_loop e ep m ds (open_cache DATA_CACHE s)")
  have b: "b = all_resolve e (length (netlog s)) ep m ds"
    using replay_loop_fst [of e ep m ds "open_cache DATA_CACHE s"] r by simp
  have c: "caches s2 = caches_open DATA_CACHE (caches s)"
    using replay_loop_keeps(1) [of e ep m ds "open_cache DATA_CACHE s"] r by simp
  show ?thesis using r b c by (cases b) simp_all
qed

text \<open>
  C1, as the code has it: for each topic with something to replay, the replay clears
  the topic's durable record exactly when every outbound call settles with a response,
  whatever its status; when a call rejects (a network error), the record is left as it
  was, with every mutation in it, those already sent included.
\<close>

theorem replay_clears_iff_no_call_throws:
  "(pending_items (fst (getStoredData e ''pending-exercise-data'' s)) \<noteq> [] \<longrightarrow>
      cache_match DATA_CACHE (ident e (data_url ''pending-exercise-data'')) (caches (syncExerciseData e s)) =
        (if all_resolve e (length (netlog s)) ''/api/exercises/progress'' ''POST''
              (pending_items (fst (getStoredData e ''pending-exercise-data'' s)))
         then None
         else cache_match DATA_CACHE (ident e (data_url ''pending-exercise-data'')) (caches s)))
   \<and> (pending_items (fst (getStoredData e ''pending-health-data'' s)) \<noteq> [] \<longrightarrow>
      cache_match DATA_CACHE (ident e (data_url ''pending-health-data'')) (caches (syncEyeHealthData e s)) =
        (if all_resolve e (length (netlog s)) ''/api/eye-health'' ''POST''
              (pending_items (fst (getStoredData e ''pending-health-data'' s)))
         then None
         else cache_match DATA_CACHE (ident e (data_url ''pending-health-data'')) (caches s)))
   \<and> (truthy (fst (getStoredData e ''pending-settings'' s)) \<longrightarrow>
      cache_match DATA_CACHE (ident e (data_url ''pending-settings'')) (caches (syncUserSettings e s)) =
        (if net e (length (netlog s))
              (mutation_call e ''/api/settings'' ''PUT'' (fst (getStoredData e ''pending-settings'' s)))
            \<noteq> None
         then None
         else cache_match DATA_CACHE (ident e (data_url ''pending-settings'')) (caches s)))"
proof (intro conjI impI)
  assume ne: "pending_items (fst (getStoredData e ''pending-exercise-data'' s)) \<noteq> []"
  obtain v s1 where g: "getStoredData e ''pending-exercise-data'' s = (v, s1)"
    by (cases "getStoredData e ''pending-exercise-data'' s")
  have s1: "s1 = open_cache DATA_CACHE s"
    using getStoredData_snd [of e "''pending-exercise-data''" s] g by simp
  from ne g have ne': "pending_items v \<noteq> []" by simp
  show "cache_match DATA_CACHE (ident e (data_url ''pending-exercise-data'')) (caches (syncExerciseData e s)) =
        (if all_resolve e (length (netlog s)) ''/api/exercises/progress'' ''POST''
              (pending_items (fst (getStoredData e ''pending-exercise-data'' s)))
         then None
         else cache_match DATA_CACHE (ident e (data_url ''pending-exercise-data'')) (caches s))"
    using sync_list_topic [OF ne', where k = "''pending-exercise-data''" and e = e
        and ep = "''/api/exercises/progress''" and m = "''POST''" and s = s
        and f = "post_all EXERCISE_DATA_SYNCED"] ne'
    by (simp add: syncExerciseData_def g s1 clearStoredData_def cache_match_delete)
next
  assume ne: "pending_items (fst (getStoredData e ''pending-health-data'' s)) \<noteq> []"
  obtain v s1 where g: "getStoredData e ''pending-health-data'' s = (v, s1)"
    by (cases "getStoredData e ''pending-health-data'' s")
  have s1: "s1 = open_cache DATA_CACHE s"
    using getStoredData_snd [of e "''pending-health-data''" s] g by simp
  from ne g have ne': "pending_items v \<noteq> []" by simp
  show "cache_match DATA_CACHE (ident e (data_url ''pending-health-data'')) (caches (syncEyeHealthData e s)) =
        (if all_resolve e (length (netlog s)) ''/api/eye-health'' ''POST''
              (pending_items (fst (getStoredData e ''pending-health-data'' s)))
         then None
         else cache_match DATA_CACHE (ident e (data_url ''pending-health-data'')) (caches s))"
    using sync_list_topic [OF ne', where k = "''pending-health-data''" and e = e
        and ep = "''/api/eye-health''" and m = "''POST''" and s = s and f = "\<lambda>x. x"] ne'
    by (simp add: syncEyeHealthData_def g s1 clearStoredData_def cache_match_delete)
next
  assume t: "truthy (fst (getStoredData e ''pending-settings'' s))"
  obtain v s1 where g: "getStoredData e ''pending-settings'' s = (v, s1)"
    by (cases "getStoredData e ''pending-settings'' s")
  have s1: "s1 = open_cache DATA_CACHE s"
    using getStoredData_snd [of e "''pending-settings''" s] g by simp
  show "cache_match DATA_CACHE (ident e (data_url ''pending-settings'')) (caches (syncUserSettings e s)) =
        (if net e (length (netlog s))
              (mutation_call e ''/api/settings'' ''PUT'' (fst (getStoredData e ''pending-settings'' s)))
            \<noteq> None
         then None
         else cache_match DATA_CACHE (ident e (data_url ''pending-settings'')) (caches s))"
    using t
    by (auto simp: syncUserSettings_def g s1 fetch_def clearStoredData_def cache_match_delete
        split: option.splits)
qed

lemma queued_three_items:
  "pending_items (fst (getStoredData flaky_env ''pending-exercise-data'' queued_three))
     = [JBool True, JNull, JBool True]"
  "pending_items (fst (getStoredData sample_env ''pending-exercise-data'' queued_three))
     = [JBool True, JNull, JBool True]"
  by (simp_all add: queued_three_def store_defs env_defs)

theorem replay_clears_iff_no_call_throws_witness:
  "cache_match DATA_CACHE (ident flaky_env (data_url ''pending-exercise-data''))
       (caches (syncExerciseData flaky_env queued_three))
     = Some (data_response sample_env (JArr [JBool True, JNull, JBool True]))
   \<and> cache_match DATA_CACHE (ident sample_env (data_url ''pending-exercise-data''))
       (caches (syncExerciseData sample_env queued_three)) = None"
proof -
  have a: "\<not> all_resolve flaky_env (length (netlog queued_three)) ''/api/exercises/progress''
             ''POST'' [JBool True, JNull, JBool True]"
    by (simp add: queued_three_def store_defs env_defs)
  have b: "all_resolve sample_env (length (netlog queued_three)) ''/api/exercises/progress''
             ''POST'' [JBool True, JNull, JBool True]"
    by (simp add: queued_three_def store_defs env_defs)
  have c: "cache_match DATA_CACHE (ident flaky_env (data_url ''pending-exercise-data''))
             (caches queued_three)
             = Some (data_response sample_env (JArr [JBool True, JNull, JBool True]))"
    by (simp add: queued_three_def store_defs env_defs)
  show ?thesis
    using replay_clears_iff_no_call_throws [of flaky_env queued_three]
      replay_clears_iff_no_call_throws [of sample_env queued_three]
    by (simp add: queued_three_items a b c del: all_resolve.simps)
qed

text \<open>
  C1 as stated fails: the server answers 500 to the one queued mutation, and the replay
  clears the durable record all the same.
\<close>

theorem replay_clears_after_error_status:
  "fst (getStoredData error_env ''pending-exercise-data'' queued_exercise) = JArr [JBool True]
   \<and> net error_env 0 (mutation_call error_env ''/api/exercises/progress'' ''POST'' (JBool True))
       = Some error_response
   \<and> status error_response = 500
   \<and> netlog (syncExerciseData error_env queued_exercise)
       = [mutation_call error_env ''/api/exercises/progress'' ''POST'' (JBool True)]
   \<and> cache_match DATA_CACHE (ident error_env (data_url ''pending-exercise-data''))
       (caches (syncExerciseData error_env queued_exercise)) = None
   \<and> fst (getStoredData error_env ''pending-exercise-data''
       (syncExerciseData error_env queued_exercise)) = JNull"
  by (simp add: queued_exercise_def syncExerciseData_def store_defs env_defs fetch_def
      mutation_call_def post_all_def)


lemma exercise_replay_broadcasts:
  assumes "pending_items (fst (getStoredData e ''pending-exercise-data'' s)) \<noteq> []"
    and "all_resolve e (length (netlog s)) ''/api/exercises/progress'' ''POST''
           (pending_items (fst (getStoredData e ''pending-exercise-data'' s)))"
  shows "posted (syncExerciseData e s)
           = posted s @ map (\<lambda>c. (c, EXERCISE_DATA_SYNCED)) (clients s)"
proof -
  obtain v s1 where g: "getStoredData e ''pending-exercise-data'' s = (v, s1)"
    by (cases "getStoredData e ''pending-exercise-data'' s")
  have s1: "s1 = open_cache DATA_CACHE s"
    using getStoredData_snd [of e "''pending-exercise-data''" s] g by simp
  obtain b s2 where r:
    "replay_loop e ''/api/exercises/progress'' ''POST'' (pending_items v) s1 = (b, s2)"
    by (cases "replay_loop e ''/api/exercises/progress'' ''POST'' (pending_items v) s1")
  have b: "b"
    using replay_loop_fst [of e "''/api/exercises/progress''" "''POST''" "pending_items v" s1]
      r assms(2) g s1 by simp
  have k: "posted s2 = posted s" "clients s2 = clients s"
    using replay_loop_keeps(2,3) [of e "''/api/exercises/progress''" "''POST''" "pending_items v" s1]
      r s1 by simp_all
  show ?thesis using assms(1) g r b k by (simp add: syncExerciseData_def)
qed

text \<open>
  C8 does not hold of the code: a replay of the eye-health topic or of the settings
  topic posts no message to any client, whatever its outcome. Only the exercise topic
  broadcasts (\<open>exercise_replay_broadcasts\<close>).
\<close>

theorem health_and_settings_replay_posts_nothing:
  "posted (syncEyeHealthData e s) = posted s \<and> posted (syncUserSettings e s) = posted s"
proof
  obtain v s1 where g: "getStoredData e ''pending-health-data'' s = (v, s1)"
    by (cases "getStoredData e ''pending-health-data'' s")
  have s1: "s1 = open_cache DATA_CACHE s"
    using getStoredData_snd [of e "''pending-health-data''" s] g by simp
  obtain b s2 where r: "replay_loop e ''/api/eye-health'' ''POST'' (pending_items v) s1 = (b, s2)"
    by (cases "replay_loop e ''/api/eye-health'' ''POST'' (pending_items v) s1")
  have k: "posted s2 = posted s"
    using replay_loop_keeps(2) [of e "''/api/eye-health''" "''POST''" "pending_items v" s1] r s1
    by simp
  show "posted (syncEyeHealthData e s) = posted s"
    using g r k s1 by (cases b) (simp_all add: syncEyeHealthData_def)
next
  obtain v s1 where g: "getStoredData e ''pending-settings'' s = (v, s1)"
    by (cases "getStoredData e ''pending-settings'' s")
  have s1: "s1 = open_cache DATA_CACHE s"
    using getStoredData_snd [of e "''pending-settings''" s] g by simp
  show "posted (syncUserSettings e s) = posted s"
    using g s1 by (auto simp: syncUserSettings_def fetch_def split: option.splits)
qed

theorem health_and_settings_replay_posts_nothing_witness:
  "fst (getStoredData sample_env ''pending-health-data'' queued_health) = JArr [JBool True]
   \<and> netlog (syncEyeHealthData sample_env queued_health)
       = [mutation_call sample_env ''/api/eye-health'' ''POST'' (JBool True)]
   \<and> net sample_env 0 (mutation_call sample_env ''/api/eye-health'' ''POST'' (JBool True))
       = Some ok_response
   \<and> fst (getStoredData sample_env ''pending-health-data''
       (syncEyeHealthData sample_env queued_health)) = JNull
   \<and> clients (syncEyeHealthData sample_env queued_health) = [''tab-1'', ''tab-2'']
   \<and> posted (syncEyeHealthData sample_env queued_health) = []"
proof -
  have p: "posted queued_health = []"
    by (simp add: queued_health_def store_defs)
  have rest:
    "fst (getStoredData sample_env ''pending-health-data'' queued_health) = JArr [JBool True]
     \<and> netlog (syncEyeHealthData sample_env queued_health)
         = [mutation_call sample_env ''/api/eye-health'' ''POST'' (JBool True)]
     \<and> net sample_env 0 (mutation_call sample_env ''/api/eye-health'' ''POST'' (JBool True))
         = Some ok_response
     \<and> fst (getStoredData sample_env ''pending-health-data''
         (syncEyeHealthData sample_env queued_health)) = JNull
     \<and> clients (syncEyeHealthData sample_env queued_health) = [''tab-1'', ''tab-2'']"
    by (simp add: queued_health_def syncEyeHealthData_def store_defs env_defs fetch_def
        mutation_call_def)
  show ?thesis
    using health_and_settings_replay_posts_nothing [of sample_env queued_health] p rest
    by simp
qed

lemma exercise_replay_broadcasts_sample:
  "posted (syncExerciseData sample_env queued_exercise)
     = [(''tab-1'', EXERCISE_DATA_SYNCED), (''tab-2'', EXERCISE_DATA_SYNCED)]"
  by (simp add: queued_exercise_def syncExerciseData_def store_defs env_defs fetch_def
      mutation_call_def post_all_def)

section \<open>Install\<close>

lemma fetch_all_eq:
  "fetch_all e qs s = (outcomes e (length (netlog s)) qs, s\<lparr>netlog := netlog s @ qs\<rparr>)"
proof (induction qs arbitrary: s)
  case Nil
  then show ?case by simp
next
  case (Cons q qs)
  show ?case by (simp add: fetch_def Cons.IH)
qed

lemma outcomes_append:
  "outcomes e n (xs @ ys) = outcomes e n xs @ outcomes e (n + length xs) ys"
  by (induction xs arbitrary: n) simp_all

lemma all_ok_append: "all_ok (xs @ ys) \<longleftrightarrow> all_ok xs \<and> all_ok ys"
  by (induction xs rule: all_ok.induct) simp_all

lemma addAll_eq:
  "addAll e name qs s =
     (all_ok (outcomes e (length (netlog s)) qs),
      s\<lparr>netlog := netlog s @ qs,
         caches := (if all_ok (outcomes e (length (netlog s)) qs)
                    then put_all e name (outcomes e (length (netlog s)) qs) (caches s)
                    else caches s)\<rparr>)"
  by (simp add: addAll_def fetch_all_eq)

lemma add_each_fst:
  "fst (add_each e name qs s) = all_ok (outcomes e (length (netlog s)) qs)"
proof (induction qs arbitrary: s)
  case Nil
  then show ?case by simp
next
  case (Cons q qs)
  show ?case
    by (cases "net e (length (netlog s)) q")
      (simp_all add: addAll_eq Cons.IH split_beta)
qed

lemma add_each_netlog:
  "netlog (snd (add_each e name qs s)) = netlog s @ qs"
proof (induction qs arbitrary: s)
  case Nil
  then show ?case by simp
next
  case (Cons q qs)
  show ?case
    by (simp add: addAll_eq Cons.IH split_beta)
qed

lemma add_each_skip_waiting:
  "skip_waiting (snd (add_each e name qs s)) = skip_waiting s"
proof (induction qs arbitrary: s)
  case Nil
  then show ?case by simp
next
  case (Cons q qs)
  show ?case
    by (simp add: addAll_eq Cons.IH split_beta)
qed

lemma install_skip_waiting:
  "skip_waiting (snd (install e s)) =
     (skip_waiting s \<or> all_ok (outcomes e (length (netlog s)) all_seeds))"
proof -
  let ?n = "length (netlog s)"
  let ?s1 = "snd (addAll e STATIC_CACHE (map seed CORE_FILES) (open_cache STATIC_CACHE s))"
  let ?s2 = "snd (addAll e ASSETS_CACHE (map seed EXERCISE_ASSETS) (open_cache ASSETS_CACHE ?s1))"
  let ?r3 = "add_each e DYNAMIC_CACHE (map cors_seed EXTERNAL_RESOURCES) (open_cache DYNAMIC_CACHE ?s2)"
  have n1: "length (netlog ?s1) = ?n + length CORE_FILES"
    by (simp add: addAll_eq open_cache_def)
  have n2: "length (netlog ?s2) = ?n + length CORE_FILES + length EXERCISE_ASSETS"
    using n1 by (simp add: addAll_eq open_cache_def)
  have k1: "skip_waiting ?s1 = skip_waiting s" by (simp add: addAll_eq open_cache_def)
  have k2: "skip_waiting ?s2 = skip_waiting s" using k1 by (simp add: addAll_eq open_cache_def)
  have k3: "skip_waiting (snd ?r3) = skip_waiting s"
    using k2 by (simp add: add_each_skip_waiting open_cache_def)
  have ok3: "fst ?r3 = all_ok (outcomes e (?n + length CORE_FILES + length EXERCISE_ASSETS)
                 (map cors_seed EXTERNAL_RESOURCES))"
    using n2 by (simp add: add_each_fst open_cache_def)
  have all: "all_ok (outcomes e ?n all_seeds) \<longleftrightarrow>
       all_ok (outcomes e ?n (map seed CORE_FILES))
       \<and> all_ok (outcomes e (?n + length CORE_FILES) (map seed EXERCISE_ASSETS))
       \<and> all_ok (outcomes e (?n + length CORE_FILES + length EXERCISE_ASSETS)
                 (map cors_seed EXTERNAL_RESOURCES))"
    by (simp add: all_seeds_def outcomes_append all_ok_append add.assoc)
  have ok1: "fst (addAll e STATIC_CACHE (map seed CORE_FILES) (open_cache STATIC_CACHE s))
               = all_ok (outcomes e ?n (map seed CORE_FILES))"
    by (simp add: addAll_eq open_cache_def)
  have ok2: "fst (addAll e ASSETS_CACHE (map seed EXERCISE_ASSETS) (open_cache ASSETS_CACHE ?s1))
               = all_ok (outcomes e (?n + length CORE_FILES) (map seed EXERCISE_ASSETS))"
    using n1 by (simp add: addAll_eq open_cache_def)
  show ?thesis
    unfolding all
    using ok1 ok2 ok3 k3
    by (auto simp: install_def split: prod.splits)
qed


lemma named_cache_put:
  "named_cache (cache_put name k r cs) n =
     (if n = name then AList.update k r (named_cache cs name) else named_cache cs n)"
  by (simp add: cache_put_def Let_def)

lemma named_cache_put_all_other:
  "n \<noteq> name \<Longrightarrow> named_cache (put_all e name rs cs) n = named_cache cs n"
  by (induction e name rs cs rule: put_all.induct) (simp_all add: named_cache_put)

lemma addAll_other_tier:
  "n \<noteq> name \<Longrightarrow> named_cache (caches (snd (addAll e name qs s))) n = named_cache (caches s) n"
  by (simp add: addAll_eq named_cache_put_all_other)

lemma addAll_failed:
  "\<not> all_ok (outcomes e (length (netlog s)) qs) \<Longrightarrow> caches (snd (addAll e name qs s)) = caches s"
  by (simp add: addAll_eq)

lemma addAll_netlog: "netlog (snd (addAll e name qs s)) = netlog s @ qs"
  by (simp add: addAll_eq)

lemma add_each_other_tier:
  "n \<noteq> name \<Longrightarrow> named_cache (caches (snd (add_each e name qs s))) n = named_cache (caches s) n"
proof (induction qs arbitrary: s)
  case Nil
  then show ?case by simp
next
  case (Cons q qs)
  then show ?case
    by (simp add: split_beta addAll_other_tier)
qed

lemma seed_counts:
  "length CORE_FILES = 9" "length EXERCISE_ASSETS = 6" "length EXTERNAL_RESOURCES = 1"
  by (simp_all add: CORE_FILES_def EXERCISE_ASSETS_def EXTERNAL_RESOURCES_def)

lemma tier_names_apart:
  "STATIC_CACHE \<noteq> ASSETS_CACHE" "STATIC_CACHE \<noteq> DYNAMIC_CACHE"
  "ASSETS_CACHE \<noteq> DYNAMIC_CACHE" "ASSETS_CACHE \<noteq> STATIC_CACHE"
  "DYNAMIC_CACHE \<noteq> STATIC_CACHE" "DYNAMIC_CACHE \<noteq> ASSETS_CACHE"
  by (simp_all add: STATIC_CACHE_def ASSETS_CACHE_def DYNAMIC_CACHE_def)

lemma install_failed_tier_unchanged:
  "\<not> all_ok (outcomes e (length (netlog s)) (map seed CORE_FILES)) \<Longrightarrow>
     named_cache (caches (snd (install e s))) STATIC_CACHE = named_cache (caches s) STATIC_CACHE"
  "\<not> all_ok (outcomes e (length (netlog s) + 9) (map seed EXERCISE_ASSETS)) \<Longrightarrow>
     named_cache (caches (snd (install e s))) ASSETS_CACHE = named_cache (caches s) ASSETS_CACHE"
proof -
  let ?s1 = "snd (addAll e STATIC_CACHE (map seed CORE_FILES) (open_cache STATIC_CACHE s))"
  let ?s2 = "snd (addAll e ASSETS_CACHE (map seed EXERCISE_ASSETS) (open_cache ASSETS_CACHE ?s1))"
  let ?s3 = "snd (add_each e DYNAMIC_CACHE (map cors_seed EXTERNAL_RESOURCES)
                (open_cache DYNAMIC_CACHE ?s2))"
  have fin: "caches (snd (install e s)) = caches ?s3"
    by (simp add: install_def split_beta)
  have n1: "length (netlog ?s1) = length (netlog s) + 9"
    by (simp add: addAll_netlog open_cache_def seed_counts)
  have t3: "\<And>n. n \<noteq> DYNAMIC_CACHE \<Longrightarrow> named_cache (caches ?s3) n = named_cache (caches ?s2) n"
    by (simp add: add_each_other_tier open_cache_def)
  have t2: "\<And>n. n \<noteq> ASSETS_CACHE \<Longrightarrow> named_cache (caches ?s2) n = named_cache (caches ?s1) n"
    by (simp add: addAll_other_tier open_cache_def)
  have t1: "\<And>n. n \<noteq> STATIC_CACHE \<Longrightarrow> named_cache (caches ?s1) n = named_cache (caches s) n"
    by (simp add: addAll_other_tier open_cache_def)
  {
    assume "\<not> all_ok (outcomes e (length (netlog s)) (map seed CORE_FILES))"
    then have "caches ?s1 = caches (open_cache STATIC_CACHE s)"
      by (intro addAll_failed) (simp add: open_cache_def)
    then show "named_cache (caches (snd (install e s))) STATIC_CACHE
                 = named_cache (caches s) STATIC_CACHE"
      using fin t3 [of STATIC_CACHE] t2 [of STATIC_CACHE] tier_names_apart
      by (simp add: open_cache_def)
  }
  {
    assume "\<not> all_ok (outcomes e (length (netlog s) + 9) (map seed EXERCISE_ASSETS))"
    then have "caches ?s2 = caches (open_cache ASSETS_CACHE ?s1)"
      using n1 by (intro addAll_failed) (simp add: open_cache_def)
    then show "named_cache (caches (snd (install e s))) ASSETS_CACHE
                 = named_cache (caches s) ASSETS_CACHE"
      using fin t3 [of ASSETS_CACHE] t1 [of ASSETS_CACHE] tier_names_apart
      by (simp add: open_cache_def)
  }
qed

text \<open>
  C4 does not hold of the code: the promise given to \<^verbatim>\<open>waitUntil\<close> is fulfilled in
  every install, also when a seed fetch fails, because the \<^verbatim>\<open>catch\<close> that logs
  "Installation failed" returns normally. So the install step succeeds, and the tiers
  whose seeds were all fetched stay populated. What does hold: immediate activation is
  requested exactly when every seed succeeds (\<open>install_skip_waiting\<close>), and a tier
  whose \<^verbatim>\<open>addAll\<close> fails gets no entry (\<open>install_failed_tier_unchanged\<close>).
\<close>

theorem install_promise_always_fulfilled:
  "fst (install e s) = Fulfilled ()"
  by (simp add: install_def split: prod.splits)

lemmas seed_defs =
  CORE_FILES_def EXERCISE_ASSETS_def EXTERNAL_RESOURCES_def seed_def cors_seed_def all_seeds_def

lemma flaky_install_fails_a_seed:
  "\<not> all_ok (outcomes flaky_env 0 (map seed CORE_FILES))"
  by (simp add: seed_defs flaky_env_def sample_env_def)



lemma flaky_install_state:
  "caches_keys (caches (snd (install flaky_env empty_state)))
     = [STATIC_CACHE, ASSETS_CACHE, DYNAMIC_CACHE]"
  "named_cache (caches (snd (install flaky_env empty_state))) STATIC_CACHE = []"
  "map fst (named_cache (caches (snd (install flaky_env empty_state))) ASSETS_CACHE)
     = map (ident flaky_env) EXERCISE_ASSETS"
  "map fst (named_cache (caches (snd (install flaky_env empty_state))) DYNAMIC_CACHE)
     = map (ident flaky_env) EXTERNAL_RESOURCES"
  "skip_waiting (snd (install flaky_env empty_state)) = False"
  by code_simp+

theorem install_promise_always_fulfilled_witness:
  "\<not> all_ok (outcomes flaky_env (length (netlog empty_state)) all_seeds)
   \<and> fst (install flaky_env empty_state) = Fulfilled ()
   \<and> fst (install flaky_env empty_state) \<noteq> Rejected
   \<and> named_cache (caches (snd (install flaky_env empty_state))) STATIC_CACHE = []
   \<and> map fst (named_cache (caches (snd (install flaky_env empty_state))) ASSETS_CACHE)
       = map (ident flaky_env) EXERCISE_ASSETS
   \<and> skip_waiting (snd (install flaky_env empty_state)) = False"
proof -
  have "\<not> all_ok (outcomes flaky_env (length (netlog empty_state)) all_seeds)"
    using flaky_install_fails_a_seed
    by (simp add: all_seeds_def outcomes_append all_ok_append empty_state_def)
  then show ?thesis
    using install_promise_always_fulfilled [of flaky_env empty_state] flaky_install_state
    by simp
qed

section \<open>What leaves the durable record alone, and what removes it\<close>

lemma put_if_200_data:
  "name \<noteq> DATA_CACHE \<Longrightarrow>
   cache_match DATA_CACHE k (caches (put_if_200 e name req r s)) = cache_match DATA_CACHE k (caches s)"
  by (simp add: put_if_200_def cache_match_put)

lemma strategy_keeps_data:
  "cache_match DATA_CACHE k (caches (snd (run_strategy st e req s))) = cache_match DATA_CACHE k (caches s)"
  using tier_names_distinct
  by (cases st)
    (auto simp: handleCacheFirst_def handleNetworkFirst_def handleStaleWhileRevalidate_def
      handleFontRequest_def handleExternalRequest_def put_if_200_def fetch_def Let_def
      cache_match_put split: option.splits prod.splits)

lemma fetch_listener_keeps_data:
  "cache_match DATA_CACHE k (caches (snd (fetch_listener e req s))) = cache_match DATA_CACHE k (caches s)"
  using strategy_keeps_data [of k NetworkFirst e req s] strategy_keeps_data [of k CacheFirst e req s]
    strategy_keeps_data [of k StaleWhileRevalidate e req s] strategy_keeps_data [of k Font e req s]
    strategy_keeps_data [of k External e req s]
  by (simp add: fetch_listener_def handleSameOriginRequest_def split_beta)

lemma install_keeps_data:
  "cache_match DATA_CACHE k (caches (snd (install e s))) = cache_match DATA_CACHE k (caches s)"
proof -
  have "named_cache (caches (snd (install e s))) DATA_CACHE = named_cache (caches s) DATA_CACHE"
    using tier_names_distinct
    by (simp add: install_def split_beta add_each_other_tier addAll_other_tier)
  then show ?thesis by (simp add: cache_match_def)
qed

lemma list_replay_other:
  assumes "\<not> same_identity e k0 k"
  shows "cache_match DATA_CACHE (ident e (data_url k))
           (caches (case replay_loop e ep m ds (open_cache DATA_CACHE s) of
                      (False, s2) \<Rightarrow> s2
                    | (True, s2) \<Rightarrow> f (clearStoredData e k0 s2)))
         = (if fst (replay_loop e ep m ds (open_cache DATA_CACHE s))
            then cache_match DATA_CACHE (ident e (data_url k))
                   (caches (f (clearStoredData e k0 (snd (replay_loop e ep m ds (open_cache DATA_CACHE s))))))
            else cache_match DATA_CACHE (ident e (data_url k)) (caches s))"
proof -
  obtain b s2 where r: "replay_loop e ep m ds (open_cache DATA_CACHE s) = (b, s2)"
    by (cases "replay_loop e ep m ds (open_cache DATA_CACHE s)")
  have c: "caches s2 = caches_open DATA_CACHE (caches s)"
    using replay_loop_keeps(1) [of e ep m ds "open_cache DATA_CACHE s"] r by simp
  show ?thesis using r c by (cases b) simp_all
qed

lemma sync_keeps_other:
  assumes "keeps e k (SyncEvent tag)"
  shows "cache_match DATA_CACHE (ident e (data_url k)) (caches (sync_listener e tag s))
           = cache_match DATA_CACHE (ident e (data_url k)) (caches s)"
proof -
  have ex: "\<not> same_identity e ''pending-exercise-data'' k \<Longrightarrow>
      cache_match DATA_CACHE (ident e (data_url k)) (caches (syncExerciseData e s))
        = cache_match DATA_CACHE (ident e (data_url k)) (caches s)"
  proof -
    assume ne: "\<not> same_identity e ''pending-exercise-data'' k"
    obtain v s1 where g: "getStoredData e ''pending-exercise-data'' s = (v, s1)"
      by (cases "getStoredData e ''pending-exercise-data'' s")
    have s1: "s1 = open_cache DATA_CACHE s"
      using getStoredData_snd [of e "''pending-exercise-data''" s] g by simp
    obtain b s2 where r:
      "replay_loop e ''/api/exercises/progress'' ''POST'' (pending_items v) s1 = (b, s2)"
      by (cases "replay_loop e ''/api/exercises/progress'' ''POST'' (pending_items v) s1")
    have c: "caches s2 = caches_open DATA_CACHE (caches s)"
      using replay_loop_keeps(1) [of e "''/api/exercises/progress''" "''POST''" "pending_items v" s1]
        r s1 by simp
    show ?thesis
      using g r c s1 ne
      by (cases b)
        (auto simp: syncExerciseData_def clearStoredData_def cache_match_delete same_identity_def)
  qed
  have hl: "\<not> same_identity e ''pending-health-data'' k \<Longrightarrow>
      cache_match DATA_CACHE (ident e (data_url k)) (caches (syncEyeHealthData e s))
        = cache_match DATA_CACHE (ident e (data_url k)) (caches s)"
  proof -
    assume ne: "\<not> same_identity e ''pending-health-data'' k"
    obtain v s1 where g: "getStoredData e ''pending-health-data'' s = (v, s1)"
      by (cases "getStoredData e ''pending-health-data'' s")
    have s1: "s1 = open_cache DATA_CACHE s"
      using getStoredData_snd [of e "''pending-health-data''" s] g by simp
    obtain b s2 where r:
      "replay_loop e ''/api/eye-health'' ''POST'' (pending_items v) s1 = (b, s2)"
      by (cases "replay_loop e ''/api/eye-health'' ''POST'' (pending_items v) s1")
    have c: "caches s2 = caches_open DATA_CACHE (caches s)"
      using replay_loop_keeps(1) [of e "''/api/eye-health''" "''POST''" "pending_items v" s1]
        r s1 by simp
    show ?thesis
      using g r c s1 ne
      by (cases b)
        (auto simp: syncEyeHealthData_def clearStoredData_def cache_match_delete same_identity_def)
  qed
  have st: "\<not> same_identity e ''pending-settings'' k \<Longrightarrow>
      cache_match DATA_CACHE (ident e (data_url k)) (caches (syncUserSettings e s))
        = cache_match DATA_CACHE (ident e (data_url k)) (caches s)"
  proof -
    assume ne: "\<not> same_identity e ''pending-settings'' k"
    obtain v s1 where g: "getStoredData e ''pending-settings'' s = (v, s1)"
      by (cases "getStoredData e ''pending-settings'' s")
    have s1: "s1 = open_cache DATA_CACHE s"
      using getStoredData_snd [of e "''pending-settings''" s] g by simp
    show ?thesis
      using g s1 ne
      by (auto simp: syncUserSettings_def fetch_def clearStoredData_def cache_match_delete
          same_identity_def split: option.splits)
  qed
  show ?thesis
    using assms ex hl st
    by (auto simp: sync_listener_def sync_key_def split: if_splits)
qed

lemma dispatch_keeps:
  assumes "keeps e k ev"
  shows "cache_match DATA_CACHE (ident e (data_url k)) (caches (dispatch e ev s))
           = cache_match DATA_CACHE (ident e (data_url k)) (caches s)"
proof (cases ev)
  case (FetchEvent req)
  then show ?thesis by (simp add: fetch_listener_keeps_data)
next
  case InstallEvent
  then show ?thesis by (simp add: install_keeps_data)
next
  case ActivateEvent
  then show ?thesis using assms by simp
next
  case (SyncEvent tag)
  then show ?thesis using assms sync_keeps_other [of e k tag s] by simp
next
  case (MessageEvent m)
  then show ?thesis using assms
    by (cases m) (auto simp: storeData_def cache_match_put same_identity_def)
qed

lemma dispatch_all_keeps:
  assumes "list_all (keeps e k) evs"
  shows "cache_match DATA_CACHE (ident e (data_url k)) (caches (dispatch_all e evs s))
           = cache_match DATA_CACHE (ident e (data_url k)) (caches s)"
  using assms
proof (induction evs arbitrary: s)
  case Nil
  then show ?case by simp
next
  case (Cons ev evs)
  then show ?case by (simp add: dispatch_keeps)
qed

lemma map_of_fold_caches_delete:
  "map_of (fold caches_delete ns cs) n = (if n \<in> set ns then None else map_of cs n)"
  by (induction ns arbitrary: cs) (auto simp: caches_delete_def delete_conv')

lemma clearAllCaches_data:
  "cache_match DATA_CACHE k (caches (clearAllCaches s)) = None"
proof -
  have p: "starts_with DATA_CACHE ''lumina-''"
    by (simp add: DATA_CACHE_def)
  have "map_of (caches (clearAllCaches s)) DATA_CACHE = None"
  proof (cases "DATA_CACHE \<in> fst ` set (caches s)")
    case True
    then show ?thesis using p
      by (simp add: clearAllCaches_def map_of_fold_caches_delete caches_keys_def)
  next
    case False
    then have "map_of (caches s) DATA_CACHE = None"
      by (simp add: map_of_eq_None_iff)
    then show ?thesis
      by (simp add: clearAllCaches_def map_of_fold_caches_delete)
  qed
  then show ?thesis by (simp add: cache_match_def named_cache_def)
qed

lemma store_same_identity:
  "same_identity e k' k \<Longrightarrow>
   cache_match DATA_CACHE (ident e (data_url k)) (caches (storeData e k' v s))
     = Some (data_response e v)"
  by (simp add: storeData_def cache_match_put same_identity_def)

lemma own_topic_replay_removes:
  "pending_items (fst (getStoredData e ''pending-exercise-data'' s)) \<noteq> [] \<Longrightarrow>
   all_resolve e (length (netlog s)) ''/api/exercises/progress'' ''POST''
     (pending_items (fst (getStoredData e ''pending-exercise-data'' s))) \<Longrightarrow>
   cache_match DATA_CACHE (ident e (data_url ''pending-exercise-data''))
     (caches (syncExerciseData e s)) = None"
  "pending_items (fst (getStoredData e ''pending-health-data'' s)) \<noteq> [] \<Longrightarrow>
   all_resolve e (length (netlog s)) ''/api/eye-health'' ''POST''
     (pending_items (fst (getStoredData e ''pending-health-data'' s))) \<Longrightarrow>
   cache_match DATA_CACHE (ident e (data_url ''pending-health-data''))
     (caches (syncEyeHealthData e s)) = None"
  "truthy (fst (getStoredData e ''pending-settings'' s)) \<Longrightarrow>
   net e (length (netlog s))
     (mutation_call e ''/api/settings'' ''PUT'' (fst (getStoredData e ''pending-settings'' s)))
     \<noteq> None \<Longrightarrow>
   cache_match DATA_CACHE (ident e (data_url ''pending-settings''))
     (caches (syncUserSettings e s)) = None"
proof -
  {
    assume ne: "pending_items (fst (getStoredData e ''pending-exercise-data'' s)) \<noteq> []"
      and ar: "all_resolve e (length (netlog s)) ''/api/exercises/progress'' ''POST''
                 (pending_items (fst (getStoredData e ''pending-exercise-data'' s)))"
    obtain v s1 where g: "getStoredData e ''pending-exercise-data'' s = (v, s1)"
      by (cases "getStoredData e ''pending-exercise-data'' s")
    have s1: "s1 = open_cache DATA_CACHE s"
      using getStoredData_snd [of e "''pending-exercise-data''" s] g by simp
    from ne g have ne': "pending_items v \<noteq> []" by simp
    show "cache_match DATA_CACHE (ident e (data_url ''pending-exercise-data''))
            (caches (syncExerciseData e s)) = None"
      using sync_list_topic [OF ne', where k = "''pending-exercise-data''" and e = e
          and ep = "''/api/exercises/progress''" and m = "''POST''" and s = s
          and f = "post_all EXERCISE_DATA_SYNCED"] ne' ar
      by (simp add: syncExerciseData_def g s1 clearStoredData_def cache_match_delete)
  }
  {
    assume ne: "pending_items (fst (getStoredData e ''pending-health-data'' s)) \<noteq> []"
      and ar: "all_resolve e (length (netlog s)) ''/api/eye-health'' ''POST''
                 (pending_items (fst (getStoredData e ''pending-health-data'' s)))"
    obtain v s1 where g: "getStoredData e ''pending-health-data'' s = (v, s1)"
      by (cases "getStoredData e ''pending-health-data'' s")
    have s1: "s1 = open_cache DATA_CACHE s"
      using getStoredData_snd [of e "''pending-health-data''" s] g by simp
    from ne g have ne': "pending_items v \<noteq> []" by simp
    show "cache_match DATA_CACHE (ident e (data_url ''pending-health-data''))
            (caches (syncEyeHealthData e s)) = None"
      using sync_list_topic [OF ne', where k = "''pending-health-data''" and e = e
          and ep = "''/api/eye-health''" and m = "''POST''" and s = s and f = "\<lambda>x. x"] ne' ar
      by (simp add: syncEyeHealthData_def g s1 clearStoredData_def cache_match_delete)
  }
  {
    assume t: "truthy (fst (getStoredData e ''pending-settings'' s))"
      and n: "net e (length (netlog s))
               (mutation_call e ''/api/settings'' ''PUT'' (fst (getStoredData e ''pending-settings'' s)))
               \<noteq> None"
    obtain v s1 where g: "getStoredData e ''pending-settings'' s = (v, s1)"
      by (cases "getStoredData e ''pending-settings'' s")
    have s1: "s1 = open_cache DATA_CACHE s"
      using getStoredData_snd [of e "''pending-settings''" s] g by simp
    show "cache_match DATA_CACHE (ident e (data_url ''pending-settings''))
            (caches (syncUserSettings e s)) = None"
      using t n
      by (auto simp: syncUserSettings_def g s1 fetch_def clearStoredData_def cache_match_delete
          split: option.splits)
  }
qed

text \<open>
  C3, as the code has it. The durable record of a key stays exactly as it is through
  every sequence of fetch events, installs, immediate-activation requests, replays of
  topics kept under another request identity and stores under keys of another request
  identity. It is deleted by the cache-clear command, replaced by a store under a key
  of the same request identity, and removed by a replay of its own topic that has
  something to replay and in which every outbound call settles. An activation is not
  among the events considered.
\<close>

theorem durable_record_kept:
  "(list_all (keeps e k) evs \<longrightarrow>
      cache_match DATA_CACHE (ident e (data_url k)) (caches (dispatch_all e evs s))
        = cache_match DATA_CACHE (ident e (data_url k)) (caches s))
   \<and> cache_match DATA_CACHE (ident e (data_url k))
        (caches (dispatch e (MessageEvent CLEAR_CACHE) s)) = None
   \<and> (same_identity e k' k \<longrightarrow>
      cache_match DATA_CACHE (ident e (data_url k))
        (caches (dispatch e (MessageEvent (STORE_EXERCISE_DATA k' v)) s))
        = Some (data_response e v))
   \<and> (pending_items (fst (getStoredData e ''pending-exercise-data'' s)) \<noteq> []
      \<and> all_resolve e (length (netlog s)) ''/api/exercises/progress'' ''POST''
            (pending_items (fst (getStoredData e ''pending-exercise-data'' s))) \<longrightarrow>
      cache_match DATA_CACHE (ident e (data_url ''pending-exercise-data''))
        (caches (dispatch e (SyncEvent ''sync-exercise-data'') s)) = None)
   \<and> (pending_items (fst (getStoredData e ''pending-health-data'' s)) \<noteq> []
      \<and> all_resolve e (length (netlog s)) ''/api/eye-health'' ''POST''
            (pending_items (fst (getStoredData e ''pending-health-data'' s))) \<longrightarrow>
      cache_match DATA_CACHE (ident e (data_url ''pending-health-data''))
        (caches (dispatch e (SyncEvent ''sync-eye-health'') s)) = None)
   \<and> (truthy (fst (getStoredData e ''pending-settings'' s))
      \<and> net e (length (netlog s))
            (mutation_call e ''/api/settings'' ''PUT'' (fst (getStoredData e ''pending-settings'' s)))
          \<noteq> None \<longrightarrow>
      cache_match DATA_CACHE (ident e (data_url ''pending-settings''))
        (caches (dispatch e (SyncEvent ''sync-user-settings'') s)) = None)"
  using dispatch_all_keeps [of e k evs s] clearAllCaches_data [of "ident e (data_url k)" s]
    store_same_identity [of e k' k v s] own_topic_replay_removes [of e s]
  by (simp add: sync_listener_def)

theorem durable_record_kept_witness:
  "cache_match DATA_CACHE (ident sample_env (data_url ''pending-exercise-data''))
     (caches (dispatch_all sample_env
        [FetchEvent icon_request, InstallEvent, SyncEvent ''sync-eye-health'',
         MessageEvent (STORE_EXERCISE_DATA ''pending-health-data'' JNull),
         MessageEvent SKIP_WAITING, FetchEvent document_request]
        queued_exercise))
     = Some (data_response sample_env (JArr [JBool True]))
   \<and> cache_match DATA_CACHE (ident sample_env (data_url ''pending-exercise-data''))
     (caches (dispatch sample_env (MessageEvent (STORE_EXERCISE_DATA ''pending-exercise-data#x'' JNull))
        queued_exercise))
     = Some (data_response sample_env JNull)
   \<and> cache_match DATA_CACHE (ident sample_env (data_url ''pending-exercise-data''))
     (caches (dispatch sample_env (SyncEvent ''sync-exercise-data'') queued_exercise)) = None"
proof -
  let ?evs = "[FetchEvent icon_request, InstallEvent, SyncEvent ''sync-eye-health'',
         MessageEvent (STORE_EXERCISE_DATA ''pending-health-data'' JNull),
         MessageEvent SKIP_WAITING, FetchEvent document_request]"
  have k: "list_all (keeps sample_env ''pending-exercise-data'') ?evs"
    by (simp add: sync_key_def same_identity_def data_url_def env_defs)
  have c: "cache_match DATA_CACHE (ident sample_env (data_url ''pending-exercise-data''))
             (caches queued_exercise)
             = Some (data_response sample_env (JArr [JBool True]))"
    by (simp add: queued_exercise_def store_defs env_defs)
  have i: "same_identity sample_env ''pending-exercise-data#x'' ''pending-exercise-data''"
    by (simp add: same_identity_def data_url_def env_defs)
  have p: "pending_items (fst (getStoredData sample_env ''pending-exercise-data'' queued_exercise))
             = [JBool True]"
    by (simp add: queued_exercise_def store_defs env_defs)
  have a: "all_resolve sample_env (length (netlog queued_exercise)) ''/api/exercises/progress''
             ''POST'' [JBool True]"
    by (simp add: queued_exercise_def store_defs env_defs)
  show ?thesis
    using durable_record_kept [of sample_env "''pending-exercise-data''" ?evs queued_exercise
        "''pending-exercise-data#x''" JNull] k c i p a
    by (simp del: all_resolve.simps)
qed

text \<open>
  C3 as stated fails: the cache-clear command deletes every namespace whose name starts
  with \<^verbatim>\<open>lumina-\<close>, the durable one among them, while the queued mutation has not
  been sent.
\<close>

theorem clear_cache_deletes_pending:
  "cache_match DATA_CACHE (ident sample_env (data_url ''pending-exercise-data''))
     (caches queued_exercise)
     = Some (data_response sample_env (JArr [JBool True]))
   \<and> netlog (dispatch sample_env (MessageEvent CLEAR_CACHE) queued_exercise) = []
   \<and> caches (dispatch sample_env (MessageEvent CLEAR_CACHE) queued_exercise) = []
   \<and> fst (getStoredData sample_env ''pending-exercise-data''
         (dispatch sample_env (MessageEvent CLEAR_CACHE) queued_exercise)) = JNull"
  by (simp add: queued_exercise_def clearAllCaches_def caches_keys_def caches_delete_def
      store_defs env_defs)

text \<open>
  An activation deletes the durable namespace too: \<^verbatim>\<open>lumina-ai-data\<close> starts with
  \<^verbatim>\<open>lumina-\<close> and is not one of \<^verbatim>\<open>validCacheNames\<close>.
\<close>

lemma activate_deletes_durable_store:
  "cache_match DATA_CACHE (ident sample_env (data_url ''pending-exercise-data''))
     (caches queued_exercise)
     = Some (data_response sample_env (JArr [JBool True]))
   \<and> stale_caches (caches_keys (caches queued_exercise)) = [DATA_CACHE]
   \<and> caches (dispatch sample_env ActivateEvent queued_exercise) = []
   \<and> fst (getStoredData sample_env ''pending-exercise-data''
         (dispatch sample_env ActivateEvent queued_exercise)) = JNull"
  by (simp add: queued_exercise_def activate_def stale_caches_def validCacheNames_def
      caches_keys_def caches_delete_def post_all_def store_defs env_defs
      CACHE_NAME_def STATIC_CACHE_def DYNAMIC_CACHE_def RUNTIME_CACHE_def ASSETS_CACHE_def)

section \<open>The order of an activation\<close>

lemma interleave_set: "t \<in> set (interleave xs ys) \<Longrightarrow> set t = set xs \<union> set ys"
  by (induction xs ys arbitrary: t rule: interleave.induct) auto

lemma interleave_nonempty: "interleave xs ys \<noteq> []"
  by (induction xs ys rule: interleave.induct) auto

lemma rest_All_Nil: "rest (All []) = [[]]"
  by simp

lemma rest_All_Cons:
  "rest (All (t # ts)) = concat (map (\<lambda>r. concat (map (interleave r) (rest (All ts)))) (rest t))"
  by simp

lemma rest_All_Prims:
  "r \<in> set (rest (All (map (\<lambda>x. Prim (f x)) xs))) \<Longrightarrow> set r = (\<lambda>x. Completed (f x)) ` set xs"
proof (induction xs arbitrary: r)
  case Nil
  then show ?case by simp
next
  case (Cons a as)
  have step: "rest (All (map (\<lambda>x. Prim (f x)) (a # as)))
                = concat (map (interleave [Completed (f a)]) (rest (All (map (\<lambda>x. Prim (f x)) as))))"
    by (simp add: rest_All_Cons del: rest.simps(3))
  from Cons.prems obtain r' where r': "r' \<in> set (rest (All (map (\<lambda>x. Prim (f x)) as)))"
    and r: "r \<in> set (interleave [Completed (f a)] r')"
    unfolding step by auto
  from interleave_set [OF r] Cons.IH [OF r'] show ?case by simp
qed

lemma rest_All_Prims_nonempty: "rest (All (map (\<lambda>x. Prim (f x)) xs)) \<noteq> []"
proof (induction xs)
  case Nil
  then show ?case by simp
next
  case (Cons a as)
  then obtain r rs where "rest (All (map (\<lambda>x. Prim (f x)) as)) = r # rs"
    by (cases "rest (All (map (\<lambda>x. Prim (f x)) as))") auto
  then show ?case
    using interleave_nonempty [of "[Completed (f a)]" r]
    by (simp add: rest_All_Cons del: rest.simps(3))
qed

lemma rest_All_Emits: "rest (All (map (\<lambda>x. Emit (f x)) xs)) = [[]]"
proof (induction xs)
  case Nil
  then show ?case by simp
next
  case (Cons a as)
  then show ?case by (simp add: rest_All_Cons del: rest.simps(3))
qed

lemma started_All_Prims:
  "started (All (map (\<lambda>x. Prim (f x)) xs)) = map (\<lambda>x. Started (f x)) xs"
  by (induction xs) simp_all

lemma started_All_Emits:
  "started (All (map (\<lambda>x. Emit (f x)) xs)) = map (\<lambda>x. Completed (f x)) xs"
  by (induction xs) simp_all

lemma precedes_prefix:
  "a \<in> set pre \<Longrightarrow> b \<notin> set pre \<Longrightarrow> precedes a b (pre @ post)"
proof -
  assume a: "a \<in> set pre" and b: "b \<notin> set pre"
  have "takeWhile (\<lambda>x. x \<noteq> a) (pre @ post) = takeWhile (\<lambda>x. x \<noteq> a) pre"
    using a by simp
  moreover have "b \<notin> set (takeWhile (\<lambda>x. x \<noteq> a) pre)"
    using b by (auto dest: set_takeWhileD)
  ultimately show ?thesis using a by (simp add: precedes_def)
qed

lemma activate_traces_eq:
  "traces (activate_task s) =
     map (\<lambda>rp. [Started CachesKeys, Started ClientsClaim] @ rp
            @ [Started ClientsMatchAll, Completed ClientsMatchAll]
            @ map (\<lambda>c. Completed (PostMessage c SW_ACTIVATED)) (clients s))
       (concat (map
          (\<lambda>rq. interleave
             (Completed CachesKeys
                # map (\<lambda>n. Started (CachesDelete n)) (stale_caches (caches_keys (caches s))) @ rq)
             [Completed ClientsClaim])
          (rest (All (map (\<lambda>n. Prim (CachesDelete n)) (stale_caches (caches_keys (caches s))))))))"
proof -
  let ?stale = "stale_caches (caches_keys (caches s))"
  let ?D = "All (map (\<lambda>n. Prim (CachesDelete n)) ?stale)"
  let ?T1 = "Then (Prim CachesKeys) ?D"
  let ?P = "All [?T1, Prim ClientsClaim]"
  let ?posts = "map (\<lambda>c. Completed (PostMessage c SW_ACTIVATED)) (clients s)"
  let ?Q = "Then (Prim ClientsMatchAll)
              (All (map (\<lambda>c. Emit (PostMessage c SW_ACTIVATED)) (clients s)))"
  have task: "activate_task s = Then ?P ?Q"
    by (simp add: activate_task_def)
  have restQ: "rest ?Q = [Completed ClientsMatchAll # ?posts]"
    by (simp add: rest_All_Emits started_All_Emits del: rest.simps(3) started.simps(3))
  have restT1: "rest ?T1 =
      map (\<lambda>rq. Completed CachesKeys # map (\<lambda>n. Started (CachesDelete n)) ?stale @ rq) (rest ?D)"
    by (simp add: started_All_Prims del: rest.simps(3) started.simps(3))
  have restP: "rest ?P = concat (map (\<lambda>r. interleave r [Completed ClientsClaim]) (rest ?T1))"
    by (simp add: rest_All_Cons rest_All_Nil del: rest.simps(3) rest.simps(4))
  have "rest (Then ?P ?Q)
          = concat (map (\<lambda>rp. map (\<lambda>rq. rp @ started ?Q @ rq) (rest ?Q)) (rest ?P))"
    by (rule rest.simps(4))
  also have "\<dots> = map (\<lambda>rp. rp @ [Started ClientsMatchAll, Completed ClientsMatchAll] @ ?posts)
                    (rest ?P)"
    unfolding restQ by (simp del: rest.simps)
  finally have r: "rest (Then ?P ?Q)
          = map (\<lambda>rp. rp @ [Started ClientsMatchAll, Completed ClientsMatchAll] @ ?posts)
              (rest ?P)" .
  have st: "started (Then ?P ?Q) = [Started CachesKeys, Started ClientsClaim]"
    by simp
  show ?thesis
    unfolding task traces_def r st restP restT1
    by (simp add: comp_def del: rest.simps interleave.simps)
qed

lemma activate_trace_shape:
  assumes "t \<in> set (traces (activate_task s))"
  shows "\<exists>rp. t = [Started CachesKeys, Started ClientsClaim] @ rp
              @ [Started ClientsMatchAll, Completed ClientsMatchAll]
              @ map (\<lambda>c. Completed (PostMessage c SW_ACTIVATED)) (clients s)
          \<and> set rp = {Completed CachesKeys, Completed ClientsClaim}
              \<union> (\<lambda>n. Started (CachesDelete n)) ` set (stale_caches (caches_keys (caches s)))
              \<union> (\<lambda>n. Completed (CachesDelete n)) ` set (stale_caches (caches_keys (caches s)))"
proof -
  let ?stale = "stale_caches (caches_keys (caches s))"
  let ?D = "All (map (\<lambda>n. Prim (CachesDelete n)) ?stale)"
  from assms obtain rp rq where rq: "rq \<in> set (rest ?D)"
    and i: "rp \<in> set (interleave
              (Completed CachesKeys # map (\<lambda>n. Started (CachesDelete n)) ?stale @ rq)
              [Completed ClientsClaim])"
    and t: "t = [Started CachesKeys, Started ClientsClaim] @ rp
              @ [Started ClientsMatchAll, Completed ClientsMatchAll]
              @ map (\<lambda>c. Completed (PostMessage c SW_ACTIVATED)) (clients s)"
    unfolding activate_traces_eq
    by (auto simp del: rest.simps started.simps interleave.simps)
  have "set rq = (\<lambda>n. Completed (CachesDelete n)) ` set ?stale"
    using rest_All_Prims [OF rq] .
  with interleave_set [OF i]
  have "set rp = {Completed CachesKeys, Completed ClientsClaim}
              \<union> (\<lambda>n. Started (CachesDelete n)) ` set ?stale
              \<union> (\<lambda>n. Completed (CachesDelete n)) ` set ?stale"
    by auto
  with t show ?thesis by blast
qed

lemma activate_has_trace: "traces (activate_task s) \<noteq> []"
proof -
  let ?stale = "stale_caches (caches_keys (caches s))"
  obtain rq rqs where "rest (All (map (\<lambda>n. Prim (CachesDelete n)) ?stale)) = rq # rqs"
    using rest_All_Prims_nonempty [of CachesDelete ?stale]
    by (cases "rest (All (map (\<lambda>n. Prim (CachesDelete n)) ?stale))") auto
  then show ?thesis
    unfolding activate_traces_eq
    by (simp add: interleave_nonempty del: rest.simps interleave.simps)
qed

text \<open>
  C6, as the code has it: in every order an activation can run in, the message
  \<^verbatim>\<open>SW_ACTIVATED\<close>, which carries the version, is posted to every open client, and only
  after client claiming has completed and every stale namespace has been deleted.
  Cleanup and claiming are the two members of one \<^verbatim>\<open>Promise.all\<close>: claiming is started
  before the list of namespaces has come back and before any deletion is started.
\<close>

theorem activation_broadcast_after_cleanup_and_claim:
  assumes "t \<in> set (traces (activate_task s))" and "c \<in> set (clients s)"
  shows "Completed (PostMessage c SW_ACTIVATED) \<in> set t
     \<and> precedes (Completed ClientsClaim) (Completed (PostMessage c SW_ACTIVATED)) t
     \<and> list_all (\<lambda>n. precedes (Completed (CachesDelete n))
                             (Completed (PostMessage c SW_ACTIVATED)) t)
          (stale_caches (caches_keys (caches s)))
     \<and> precedes (Started ClientsClaim) (Completed CachesKeys) t
     \<and> list_all (\<lambda>n. precedes (Started ClientsClaim) (Started (CachesDelete n)) t)
          (stale_caches (caches_keys (caches s)))"
proof -
  let ?stale = "stale_caches (caches_keys (caches s))"
  let ?tail = "[Started ClientsMatchAll, Completed ClientsMatchAll]
                 @ map (\<lambda>c. Completed (PostMessage c SW_ACTIVATED)) (clients s)"
  from activate_trace_shape [OF assms(1)] obtain rp
    where t: "t = [Started CachesKeys, Started ClientsClaim] @ rp @ ?tail"
      and rp: "set rp = {Completed CachesKeys, Completed ClientsClaim}
              \<union> (\<lambda>n. Started (CachesDelete n)) ` set ?stale
              \<union> (\<lambda>n. Completed (CachesDelete n)) ` set ?stale"
    by blast
  have t1: "t = ([Started CachesKeys, Started ClientsClaim] @ rp) @ ?tail"
    and t2: "t = [Started CachesKeys, Started ClientsClaim] @ (rp @ ?tail)"
    using t by simp_all
  have sent: "Completed (PostMessage c SW_ACTIVATED) \<in> set t"
    using assms(2) t by auto
  have post_late: "Completed (PostMessage c SW_ACTIVATED)
                     \<notin> set ([Started CachesKeys, Started ClientsClaim] @ rp)"
    using rp by auto
  have claim_done: "precedes (Completed ClientsClaim) (Completed (PostMessage c SW_ACTIVATED)) t"
    unfolding t1 using rp post_late by (intro precedes_prefix) auto
  have dels_done: "list_all (\<lambda>n. precedes (Completed (CachesDelete n))
                             (Completed (PostMessage c SW_ACTIVATED)) t) ?stale"
    unfolding list_all_iff
  proof
    fix n assume "n \<in> set ?stale"
    then have "Completed (CachesDelete n) \<in> set ([Started CachesKeys, Started ClientsClaim] @ rp)"
      using rp by auto
    then show "precedes (Completed (CachesDelete n)) (Completed (PostMessage c SW_ACTIVATED)) t"
      unfolding t1 using post_late by (intro precedes_prefix)
  qed
  have claim_early: "precedes (Started ClientsClaim) (Completed CachesKeys) t"
    unfolding t2 by (intro precedes_prefix) auto
  have claim_before_dels:
    "list_all (\<lambda>n. precedes (Started ClientsClaim) (Started (CachesDelete n)) t) ?stale"
    unfolding list_all_iff
  proof
    fix n assume "n \<in> set ?stale"
    show "precedes (Started ClientsClaim) (Started (CachesDelete n)) t"
      unfolding t2 by (intro precedes_prefix) auto
  qed
  from sent claim_done dels_done claim_early claim_before_dels show ?thesis by blast
qed

lemma old_generation_stale:
  "stale_caches (caches_keys (caches old_generation)) = [''lumina-static-v2.4.0'']"
  by (simp add: old_generation_def caches_keys_def stale_caches_def validCacheNames_def
      CACHE_NAME_def STATIC_CACHE_def DYNAMIC_CACHE_def RUNTIME_CACHE_def ASSETS_CACHE_def
      APP_VERSION_def)

lemma old_generation_traces:
  "sample_trace \<in> set (traces (activate_task old_generation))"
  unfolding activate_traces_eq old_generation_stale
  by (simp add: sample_trace_def old_generation_def)

theorem activation_broadcast_after_cleanup_and_claim_witness:
  "Completed (PostMessage ''tab-1'' SW_ACTIVATED) \<in> set sample_trace
     \<and> precedes (Completed ClientsClaim) (Completed (PostMessage ''tab-1'' SW_ACTIVATED)) sample_trace
     \<and> precedes (Completed (CachesDelete ''lumina-static-v2.4.0''))
          (Completed (PostMessage ''tab-1'' SW_ACTIVATED)) sample_trace
     \<and> precedes (Started ClientsClaim) (Completed CachesKeys) sample_trace
     \<and> precedes (Started ClientsClaim) (Started (CachesDelete ''lumina-static-v2.4.0'')) sample_trace
     \<and> mversion SW_ACTIVATED = Some ''2.5.0''"
proof -
  have c: "''tab-1'' \<in> set (clients old_generation)"
    by (simp add: old_generation_def)
  show ?thesis
    using activation_broadcast_after_cleanup_and_claim [OF old_generation_traces c]
    by (simp add: old_generation_stale SW_ACTIVATED_def APP_VERSION_def)
qed

text \<open>
  C6 as stated fails: with one stale namespace to delete, in no order of the activation
  does the deletion complete before client claiming begins.
\<close>

theorem claim_starts_before_cleanup_completes:
  "stale_caches (caches_keys (caches old_generation)) = [''lumina-static-v2.4.0'']
   \<and> traces (activate_task old_generation) \<noteq> []
   \<and> list_all (\<lambda>t. \<not> precedes (Completed (CachesDelete ''lumina-static-v2.4.0''))
                          (Started ClientsClaim) t)
        (traces (activate_task old_generation))"
  unfolding activate_traces_eq old_generation_stale
  by (simp add: precedes_def old_generation_def)

end
